theory Spec2Isabelle
  imports Main "HOL-Library.Sublist"
begin

section \<open>BazelDeps: the generator of Bazel files for a resolved dependency graph\<close>

text \<open>
  A shallow embedding of \<^verbatim>\<open>conan/tools/google/bazeldeps.py\<close>. Python strings are
  \<^typ>\<open>string\<close> (a character is a code point below 256), lists are lists, a dict that is
  iterated is an association list in insertion order, \<^verbatim>\<open>None\<close> is \<^term>\<open>None\<close>.
  An exception is a value of \<open>error\<close>; a function that writes files or warnings takes the
  \<open>world\<close> and returns it next to its result, also when it raises, because what was
  written before a raise stays written. The model covers \<^verbatim>\<open>generate\<close> and what it calls;
  the constructor, which only stores the conanfile and calls
  \<^verbatim>\<open>check_using_build_profile\<close>, is left out.
\<close>

subsection \<open>Exceptions, the dependency graph, the operating system\<close>

datatype error = ConanException string | TypeError | OSError

text \<open>
  The fields of \<^verbatim>\<open>dependency.cpp_info.aggregated_components()\<close> that the generator
  reads; \<open>cpp_defines\<close> is \<^verbatim>\<open>cpp_info.defines\<close>.
\<close>

record cpp_info =
  includedirs :: "string list"
  libdirs :: "string list"
  libs :: "string list"
  cpp_defines :: "string list"
  system_libs :: "string list"

text \<open>
  A dependency as the generator sees it: \<open>ref_name\<close> is \<^verbatim>\<open>dependency.ref.name\<close>,
  \<open>package_folder\<close> is \<^term>\<open>None\<close> for an editable package, \<open>dependencies\<close> holds
  \<^verbatim>\<open>dep.ref.name\<close> for the values of \<^verbatim>\<open>dependency.dependencies.items()\<close> in their order,
  and \<open>shared\<close> is the truth value of
  \<^verbatim>\<open>dependency.options.get_safe("shared") if dependency.options else False\<close>.
\<close>

record dependency =
  ref_name :: string
  package_folder :: "string option"
  cpp_info :: cpp_info
  dependencies :: "string list"
  shared :: bool

text \<open>
  The conanfile: \<open>direct_build\<close> and \<open>host\<close> are the values of
  \<^verbatim>\<open>dependencies.direct_build\<close> and \<^verbatim>\<open>dependencies.host\<close> in the order the graph gives them.
\<close>

record conanfile =
  generators_folder :: string
  direct_build :: "dependency list"
  host :: "dependency list"

text \<open>
  What the generator asks of the platform: \<^verbatim>\<open>platform.system()\<close>, \<^verbatim>\<open>os.path.exists\<close>,
  \<^verbatim>\<open>os.listdir\<close> (which may raise), \<^verbatim>\<open>os.path.join\<close> and \<^verbatim>\<open>os.path.splitext\<close>.
\<close>

record env =
  platform_system :: string
  path_exists :: "string \<Rightarrow> bool"
  listdir :: "string \<Rightarrow> error + string list"
  path_join :: "string \<Rightarrow> string \<Rightarrow> string"
  path_splitext :: "string \<Rightarrow> string \<times> string"

text \<open>
  The effects: \<open>saved\<close> is the sequence of \<^verbatim>\<open>save(path, content)\<close> calls and \<open>warned\<close> the
  sequence of \<^verbatim>\<open>output.warning\<close> messages, oldest first.
\<close>

record world =
  saved :: "(string \<times> string) list"
  warned :: "string list"

text \<open>
  Modelled from the spec: \<^verbatim>\<open>conans.util.files.save\<close> is not among the sources; the spec
  speaks only of writing a file, so a call is recorded as one entry of the write sequence.
\<close>

definition save :: "string \<Rightarrow> string \<Rightarrow> world \<Rightarrow> world" where
  "save path content w = w\<lparr>saved := saved w @ [(path, content)]\<rparr>"

definition warning :: "string \<Rightarrow> world \<Rightarrow> world" where
  "warning msg w = w\<lparr>warned := warned w @ [msg]\<rparr>"

subsection \<open>Python string operations\<close>

definition startswith :: "string \<Rightarrow> string \<Rightarrow> bool" where
  "startswith s pre = prefix pre s"

definition endswith :: "string \<Rightarrow> string \<Rightarrow> bool" where
  "endswith s suf = suffix suf s"

text \<open>\<^verbatim>\<open>s.replace(old, new)\<close> for a one-character \<open>old\<close>.\<close>

definition replace :: "char \<Rightarrow> string \<Rightarrow> string \<Rightarrow> string" where
  "replace old new s = concat (map (\<lambda>c. if c = old then new else [c]) s)"

definition lstrip :: "string \<Rightarrow> string \<Rightarrow> string" where
  "lstrip chars s = dropWhile (\<lambda>c. c \<in> set chars) s"

fun join :: "string \<Rightarrow> string list \<Rightarrow> string" where
  "join sep [] = []"
| "join sep [x] = x"
| "join sep (x # y # ys) = x @ sep @ join sep (y # ys)"

definition backslash :: char where
  "backslash = CHR 0x5C"

text \<open>The line boundaries of \<^verbatim>\<open>str.splitlines\<close> among the code points below 256.\<close>

definition is_linebreak :: "char \<Rightarrow> bool" where
  "is_linebreak c \<longleftrightarrow>
     c \<in> set [CHR 0x0A, CHR 0x0B, CHR 0x0C, CHR 0x0D, CHR 0x1C, CHR 0x1D, CHR 0x1E, CHR 0x85]"

text \<open>\<^verbatim>\<open>s.splitlines(True)\<close>: the first argument is the line read so far.\<close>

fun splitlines_keepends :: "string \<Rightarrow> string \<Rightarrow> string list" where
  "splitlines_keepends cur [] = (if cur = [] then [] else [cur])"
| "splitlines_keepends cur [c] = [cur @ [c]]"
| "splitlines_keepends cur (c # d # cs) =
     (if c = CHR 0x0D \<and> d = CHR 0x0A then (cur @ [c, d]) # splitlines_keepends [] cs
      else if is_linebreak c then (cur @ [c]) # splitlines_keepends [] (d # cs)
      else splitlines_keepends (cur @ [c]) (d # cs))"

subsection \<open>The \<^verbatim>\<open>os.path\<close> functions of the standard library\<close>

fun rfind_from :: "char \<Rightarrow> string \<Rightarrow> int \<Rightarrow> int \<Rightarrow> int" where
  "rfind_from c [] i found = found"
| "rfind_from c (x # xs) i found = rfind_from c xs (i + 1) (if x = c then i else found)"

definition rfind :: "char \<Rightarrow> string \<Rightarrow> int" where
  "rfind c s = rfind_from c s 0 (- 1)"

text \<open>
  \<^verbatim>\<open>genericpath._splitext\<close>: the extension starts at the last dot, when that dot comes
  after the last separator and some character between the two is not a dot.
\<close>

definition genericpath_splitext :: "string \<Rightarrow> char \<Rightarrow> char option \<Rightarrow> char \<Rightarrow> string \<times> string" where
  "genericpath_splitext p sep altsep extsep =
     (let sepIndex = (case altsep of None \<Rightarrow> rfind sep p
                      | Some a \<Rightarrow> max (rfind sep p) (rfind a p));
          dotIndex = rfind extsep p
      in if dotIndex > sepIndex \<and>
            list_ex (\<lambda>c. c \<noteq> extsep)
              (take (nat dotIndex - nat (sepIndex + 1)) (drop (nat (sepIndex + 1)) p))
         then (take (nat dotIndex) p, drop (nat dotIndex) p)
         else (p, []))"

definition posixpath_splitext :: "string \<Rightarrow> string \<times> string" where
  "posixpath_splitext p = genericpath_splitext p CHR ''/'' None CHR ''.''"

definition ntpath_splitext :: "string \<Rightarrow> string \<times> string" where
  "ntpath_splitext p = genericpath_splitext p backslash (Some CHR ''/'') CHR ''.''"

definition posixpath_join :: "string \<Rightarrow> string \<Rightarrow> string" where
  "posixpath_join a b =
     (if startswith b ''/'' then b
      else if a = [] \<or> endswith a ''/'' then a @ b
      else a @ ''/'' @ b)"

text \<open>A POSIX platform whose directories are given by an association list.\<close>

definition posix_env :: "string \<Rightarrow> (string \<times> string list) list \<Rightarrow> env" where
  "posix_env sys dirs =
     \<lparr>platform_system = sys,
      path_exists = (\<lambda>p. map_of dirs p \<noteq> None),
      listdir = (\<lambda>p. case map_of dirs p of None \<Rightarrow> Inl OSError | Some fs \<Rightarrow> Inr fs),
      path_join = posixpath_join,
      path_splitext = posixpath_splitext\<rparr>"

subsection \<open>The library file locator\<close>

text \<open>The name that a file is compared under: the body of the inner loop before the test.\<close>

definition lib_name :: "env \<Rightarrow> string \<Rightarrow> string" where
  "lib_name env f =
     (case path_splitext env f of (name, ext) \<Rightarrow>
        if ext \<in> set [''.so'', ''.lib'', ''.a'', ''.dylib'', ''.bc'']
        then (if ext \<noteq> ''.lib'' \<and> startswith name ''lib'' then drop 3 name else name)
        else name)"

fun scan_files :: "env \<Rightarrow> string \<Rightarrow> string \<Rightarrow> string list \<Rightarrow> string option" where
  "scan_files env libdir lib [] = None"
| "scan_files env libdir lib (f # files) =
     (if lib = lib_name env f then Some (path_join env libdir f)
      else scan_files env libdir lib files)"

fun get_lib_file_paths ::
  "env \<Rightarrow> string list \<Rightarrow> string \<Rightarrow> world \<Rightarrow> (error + string option) \<times> world" where
  "get_lib_file_paths env [] lib w =
     (Inr None, warning (''The library '' @ lib @ '' cannot be found in the dependency'') w)"
| "get_lib_file_paths env (libdir # rest) lib w =
     (if \<not> path_exists env libdir
      then get_lib_file_paths env rest lib
             (warning (''The library folder doesn't exist: '' @ libdir) w)
      else (case listdir env libdir of
              Inl e \<Rightarrow> (Inl e, w)
            | Inr files \<Rightarrow>
                (case scan_files env libdir lib files of
                   Some p \<Rightarrow> (Inr (Some p), w)
                 | None \<Rightarrow> get_lib_file_paths env rest lib w)))"

subsection \<open>The per-dependency BUILD file\<close>

definition save_dependency_buildfile ::
  "dependency \<Rightarrow> string \<Rightarrow> string \<Rightarrow> world \<Rightarrow> string \<times> world" where
  "save_dependency_buildfile dep buildfile_content conandeps w =
     (let filename = conandeps @ ''/'' @ ref_name dep @ ''/BUILD''
      in (filename, save filename buildfile_content w))"

definition get_build_dependency_buildfile_content :: "dependency \<Rightarrow> string" where
  \<open>get_build_dependency_buildfile_content dep =
     ''\<newline>filegroup(\<newline>    name = "'' @ ref_name dep @ ''_binaries",\<newline>'' @
     ''    data = glob(["**"]),\<newline>'' @
     ''    visibility = ["//visibility:public"],\<newline>)\<newline>\<newline>''\<close>

definition relativize_path :: "string \<Rightarrow> string option \<Rightarrow> error + string" where
  "relativize_path p base_path =
     (case base_path of
        None \<Rightarrow> Inl TypeError
      | Some b \<Rightarrow>
          if startswith p b
          then Inr (lstrip ''/'' (replace backslash ''/'' (drop (length b) p)))
          else Inr (lstrip ''/'' (replace backslash ''/'' p)))"

text \<open>The loop over \<^verbatim>\<open>cpp_info.includedirs\<close>, which appends to \<^verbatim>\<open>headers\<close> and \<^verbatim>\<open>includes\<close>.\<close>

fun includedirs_loop ::
  "string option \<Rightarrow> string list \<Rightarrow> string list \<times> string list \<Rightarrow>
     error + string list \<times> string list" where
  "includedirs_loop pf [] acc = Inr acc"
| \<open>includedirs_loop pf (path # paths) acc =
     (case relativize_path path pf of
        Inl e \<Rightarrow> Inl e
      | Inr h \<Rightarrow>
          (case relativize_path path pf of
             Inl e \<Rightarrow> Inl e
           | Inr i \<Rightarrow>
               includedirs_loop pf paths
                 (fst acc @ [''"'' @ h @ ''/**"''], snd acc @ [''"'' @ i @ ''"''])))\<close>

definition format_define :: "string \<Rightarrow> string" where
  \<open>format_define define =
     ''"'' @ replace CHR 0x22 [backslash, backslash, backslash, CHR 0x22] define @ ''"''\<close>

definition format_linkopt :: "env \<Rightarrow> string \<Rightarrow> string" where
  \<open>format_linkopt env system_lib =
     (if platform_system env = ''Windows'' then ''"/DEFAULTLIB:'' @ system_lib @ ''"''
      else ''"-l'' @ system_lib @ ''"'')\<close>

text \<open>\<^verbatim>\<open>d[k] = v\<close> on a dict kept in insertion order.\<close>

fun dict_set :: "(string \<times> string) list \<Rightarrow> string \<Rightarrow> string \<Rightarrow> (string \<times> string) list" where
  "dict_set [] k v = [(k, v)]"
| "dict_set (kv # kvs) k v = (if fst kv = k then (k, v) # kvs else kv # dict_set kvs k v)"

text \<open>The loop over \<^verbatim>\<open>cpp_info.libs\<close>, which fills the dict \<^verbatim>\<open>libs\<close>.\<close>

fun libs_loop ::
  "env \<Rightarrow> string list \<Rightarrow> string option \<Rightarrow> string list \<Rightarrow> (string \<times> string) list \<Rightarrow> world \<Rightarrow>
     (error + (string \<times> string) list) \<times> world" where
  "libs_loop env dirs pf [] acc w = (Inr acc, w)"
| "libs_loop env dirs pf (lib # rest) acc w =
     (case get_lib_file_paths env dirs lib w of
        (Inl e, w') \<Rightarrow> (Inl e, w')
      | (Inr None, w') \<Rightarrow> libs_loop env dirs pf rest acc w'
      | (Inr (Some real_path), w') \<Rightarrow>
          if real_path = [] then libs_loop env dirs pf rest acc w'
          else (case relativize_path real_path pf of
                  Inl e \<Rightarrow> (Inl e, w')
                | Inr r \<Rightarrow> libs_loop env dirs pf rest (dict_set acc lib r) w'))"

text \<open>The dict \<^verbatim>\<open>context\<close> handed to the template.\<close>

record template_context =
  ctx_name :: string
  ctx_libs :: "(string \<times> string) list"
  ctx_libdir :: string
  ctx_headers :: string
  ctx_includes :: string
  ctx_defines :: string
  ctx_linkopts :: string
  ctx_library_type :: string
  ctx_dependencies :: "string list"

text \<open>
  \<^verbatim>\<open>Template(template).render(**context)\<close> for the dedented template of the source, with
  the defaults of jinja2: no block trimming, no escaping, and the one newline that ends the
  template dropped.
\<close>

definition render_cc_import :: "template_context \<Rightarrow> string \<times> string \<Rightarrow> string" where
  \<open>render_cc_import ctx kv =
     ''\<newline>cc_import(\<newline>    name = "'' @ fst kv @ ''_precompiled",\<newline>    '' @
     ctx_library_type ctx @ '' = "'' @ snd kv @ ''"\<newline>)\<newline>''\<close>

definition render_if :: "bool \<Rightarrow> string \<Rightarrow> string" where
  "render_if b body = (if b then body else [])"

definition render :: "template_context \<Rightarrow> string" where
  \<open>render ctx =
     ''\<newline>load("@rules_cc//cc:defs.bzl", "cc_import", "cc_library")\<newline>\<newline>'' @
     concat (map (render_cc_import ctx) (ctx_libs ctx)) @
     ''\<newline>\<newline>cc_library(\<newline>    name = "'' @ ctx_name ctx @ ''",\<newline>    '' @
     render_if (ctx_headers ctx \<noteq> [])
       (''\<newline>    hdrs = glob(['' @ ctx_headers ctx @ '']),\<newline>    '') @
     ''\<newline>    '' @
     render_if (ctx_includes ctx \<noteq> [])
       (''\<newline>    includes = ['' @ ctx_includes ctx @ ''],\<newline>    '') @
     ''\<newline>    '' @
     render_if (ctx_defines ctx \<noteq> [])
       (''\<newline>    defines = ['' @ ctx_defines ctx @ ''],\<newline>    '') @
     ''\<newline>    '' @
     render_if (ctx_linkopts ctx \<noteq> [])
       (''\<newline>    linkopts = ['' @ ctx_linkopts ctx @ ''],\<newline>    '') @
     ''\<newline>    visibility = ["//visibility:public"],\<newline>    '' @
     render_if (ctx_libs ctx \<noteq> [])
       (''\<newline>    deps = [\<newline>    '' @
        concat (map (\<lambda>kv. ''\<newline>    ":'' @ fst kv @ ''_precompiled",\<newline>    '') (ctx_libs ctx)) @
        ''\<newline>    '' @
        concat (map (\<lambda>dep. ''\<newline>    "@'' @ dep @ ''",\<newline>    '') (ctx_dependencies ctx)) @
        ''\<newline>    ],\<newline>    '') @
     ''\<newline>)\<newline>''\<close>

text \<open>
  The part of \<^verbatim>\<open>_get_dependency_buildfile_content\<close> before the rendering: \<^term>\<open>None\<close>
  when the early return is taken, the context otherwise.
\<close>

definition get_dependency_buildfile_context ::
  "env \<Rightarrow> dependency \<Rightarrow> world \<Rightarrow> (error + template_context option) \<times> world" where
  "get_dependency_buildfile_context env dep w =
     (let info = cpp_info dep in
      if libs info = [] \<and> includedirs info = [] then (Inr None, w)
      else (case includedirs_loop (package_folder dep) (includedirs info) ([], []) of
              Inl e \<Rightarrow> (Inl e, w)
            | Inr hi \<Rightarrow>
                (case libs_loop env (libdirs info) (package_folder dep) (libs info) [] w of
                   (Inl e, w') \<Rightarrow> (Inl e, w')
                 | (Inr ls, w') \<Rightarrow>
                     (Inr (Some
                        \<lparr>ctx_name = ref_name dep,
                         ctx_libs = ls,
                         ctx_libdir = ''lib'',
                         ctx_headers = join '', '' (fst hi),
                         ctx_includes = join '', '' (snd hi),
                         ctx_defines = join '', '' (map format_define (cpp_defines info)),
                         ctx_linkopts = join '', '' (map (format_linkopt env) (system_libs info)),
                         ctx_library_type =
                           (if shared dep then ''shared_library'' else ''static_library''),
                         ctx_dependencies = dependencies dep\<rparr>), w'))))"

definition get_dependency_buildfile_content ::
  "env \<Rightarrow> dependency \<Rightarrow> world \<Rightarrow> (error + string option) \<times> world" where
  "get_dependency_buildfile_content env dep w =
     (case get_dependency_buildfile_context env dep w of
        (Inl e, w') \<Rightarrow> (Inl e, w')
      | (Inr None, w') \<Rightarrow> (Inr None, w')
      | (Inr (Some ctx), w') \<Rightarrow> (Inr (Some (render ctx)), w'))"

subsection \<open>The entry-point file and the walk over the graph\<close>

definition create_new_local_repository :: "dependency \<Rightarrow> string \<Rightarrow> error + string" where
  \<open>create_new_local_repository dep dependency_buildfile_name =
     (case package_folder dep of
        None \<Rightarrow> Inl (ConanException ''BazelDeps doesn't support editable packages'')
      | Some folder \<Rightarrow>
          Inr (''\<newline>native.new_local_repository(\<newline>    name="'' @ ref_name dep @ ''",\<newline>'' @
               ''    path="'' @ replace backslash ''/'' folder @ ''",\<newline>'' @
               ''    build_file="'' @ replace backslash ''/'' dependency_buildfile_name @
               ''",\<newline>)\<newline>''))\<close>

definition get_main_buildfile_content :: "string list \<Rightarrow> string" where
  "get_main_buildfile_content local_repositories =
     ''\<newline>def load_conan_dependencies():\<newline>    '' @
     (if local_repositories \<noteq> []
      then join ''    '' (splitlines_keepends [] (join ''\<newline>'' local_repositories))
      else ''    pass'') @
     ''\<newline>''"

definition save_main_buildfiles :: "string \<Rightarrow> string \<Rightarrow> world \<Rightarrow> world" where
  "save_main_buildfiles content gf w =
     save (gf @ ''/dependencies.bzl'') content (save (gf @ ''/BUILD'') [] w)"

text \<open>The first loop of \<^verbatim>\<open>generate\<close>, over the direct build dependencies.\<close>

fun build_loop ::
  "string \<Rightarrow> dependency list \<Rightarrow> string list \<Rightarrow> world \<Rightarrow> (error + string list) \<times> world" where
  "build_loop gf [] local_repositories w = (Inr local_repositories, w)"
| "build_loop gf (dep # deps) local_repositories w =
     (case save_dependency_buildfile dep (get_build_dependency_buildfile_content dep) gf w of
        (filename, w') \<Rightarrow>
          (case create_new_local_repository dep filename of
             Inl e \<Rightarrow> (Inl e, w')
           | Inr local_repository \<Rightarrow>
               build_loop gf deps (local_repositories @ [local_repository]) w'))"

text \<open>The second loop, over the host dependencies.\<close>

fun host_loop ::
  "env \<Rightarrow> string \<Rightarrow> dependency list \<Rightarrow> string list \<Rightarrow> world \<Rightarrow>
     (error + string list) \<times> world" where
  "host_loop env gf [] local_repositories w = (Inr local_repositories, w)"
| "host_loop env gf (dep # deps) local_repositories w =
     (case get_dependency_buildfile_content env dep w of
        (Inl e, w') \<Rightarrow> (Inl e, w')
      | (Inr None, w') \<Rightarrow> host_loop env gf deps local_repositories w'
      | (Inr (Some content), w') \<Rightarrow>
          if content = [] then host_loop env gf deps local_repositories w'
          else (case save_dependency_buildfile dep content gf w' of
                  (filename, w'') \<Rightarrow>
                    (case create_new_local_repository dep filename of
                       Inl e \<Rightarrow> (Inl e, w'')
                     | Inr local_repository \<Rightarrow>
                         host_loop env gf deps (local_repositories @ [local_repository]) w'')))"

definition generate :: "env \<Rightarrow> conanfile \<Rightarrow> world \<Rightarrow> (error + unit) \<times> world" where
  "generate env conanfile w =
     (let gf = generators_folder conanfile in
      case build_loop gf (direct_build conanfile) [] w of
        (Inl e, w1) \<Rightarrow> (Inl e, w1)
      | (Inr built, w1) \<Rightarrow>
          (case host_loop env gf (host conanfile) built w1 of
             (Inl e, w2) \<Rightarrow> (Inl e, w2)
           | (Inr local_repositories, w2) \<Rightarrow>
               (Inr (), save_main_buildfiles (get_main_buildfile_content local_repositories)
                          (generators_folder conanfile) w2)))"

subsection \<open>Views of the definitions used to state the properties\<close>

text \<open>The world before the generator has done anything.\<close>

definition no_effects :: world where
  "no_effects = \<lparr>saved = [], warned = []\<rparr>"


text \<open>
  The content that \<^verbatim>\<open>_get_dependency_buildfile_content\<close> returns for a dependency and the
  warnings it emits on the way; neither depends on the world it is called in
  (lemma \<open>get_dependency_buildfile_content_eq\<close>).
\<close>

definition buildfile_content_of :: "env \<Rightarrow> dependency \<Rightarrow> error + string option" where
  "buildfile_content_of env dep = fst (get_dependency_buildfile_content env dep no_effects)"


definition buildfile_warnings_of :: "env \<Rightarrow> dependency \<Rightarrow> string list" where
  "buildfile_warnings_of env dep = warned (snd (get_dependency_buildfile_content env dep no_effects))"


text \<open>The path \<^verbatim>\<open>'{}/{}/BUILD'.format(conandeps, dependency.ref.name)\<close>.\<close>

definition dependency_buildfile_name :: "string \<Rightarrow> dependency \<Rightarrow> string" where
  "dependency_buildfile_name gf dep = gf @ ''/'' @ ref_name dep @ ''/BUILD''"


text \<open>
  A host dependency passes the test \<^verbatim>\<open>if not content: continue\<close> when its content is a
  non-empty string; \<open>host_buildfile\<close> is that string.
\<close>

definition has_buildfile :: "env \<Rightarrow> dependency \<Rightarrow> bool" where
  "has_buildfile env dep =
     (case buildfile_content_of env dep of Inr (Some content) \<Rightarrow> content \<noteq> [] | _ \<Rightarrow> False)"


definition host_buildfile :: "env \<Rightarrow> dependency \<Rightarrow> string" where
  "host_buildfile env dep =
     (case buildfile_content_of env dep of Inr (Some content) \<Rightarrow> content | _ \<Rightarrow> [])"


text \<open>The snippet that registers a dependency, for the file name that \<^verbatim>\<open>generate\<close> passes.\<close>

definition local_repository_of :: "string \<Rightarrow> dependency \<Rightarrow> string" where
  "local_repository_of gf dep =
     (case create_new_local_repository dep (dependency_buildfile_name gf dep) of
        Inr snippet \<Rightarrow> snippet | Inl e \<Rightarrow> [])"


text \<open>
  The stem of a file as the specification words it: the file name without its extension,
  less a leading \<^verbatim>\<open>lib\<close> when the extension is one of \<^verbatim>\<open>.so\<close>, \<^verbatim>\<open>.a\<close>, \<^verbatim>\<open>.dylib\<close>,
  \<^verbatim>\<open>.bc\<close>. It is compared with \<open>lib_name\<close>, which follows the source.
\<close>

definition spec_stem :: "string \<times> string \<Rightarrow> string" where
  "spec_stem se =
     (case se of (stem, ext) \<Rightarrow>
        if ext \<in> set [''.so'', ''.a'', ''.dylib'', ''.bc''] \<and> startswith stem ''lib''
        then drop 3 stem else stem)"


text \<open>
  The path emitted for \<open>p\<close> as the specification words it: what remains of \<open>p\<close> after
  the package folder when \<open>p\<close> starts with it, all of \<open>p\<close> otherwise, with every
  backslash replaced by a slash and the leading slashes removed. It is compared with
  \<open>relativize_path\<close>, which follows the source.
\<close>

definition spec_relative_path :: "string \<Rightarrow> string \<Rightarrow> string" where
  "spec_relative_path base p =
     lstrip ''/'' (replace backslash ''/'' (if startswith p base then drop (length base) p else p))"

text \<open>
  The file that the locator finds for a library, when it finds one and raises nothing, and
  the entries of the dict \<^verbatim>\<open>libs\<close> as the specification has them: one for each library
  that is found, in the order of first occurrence in \<^verbatim>\<open>cpp_info.libs\<close>, with the relative
  path of the file found.
\<close>

definition located_file :: "env \<Rightarrow> string list \<Rightarrow> string \<Rightarrow> string option" where
  "located_file env dirs lib =
     (case fst (get_lib_file_paths env dirs lib no_effects) of
        Inr (Some real) \<Rightarrow> if real = [] then None else Some real
      | _ \<Rightarrow> None)"

definition spec_library_paths ::
  "env \<Rightarrow> string list \<Rightarrow> string \<Rightarrow> string list \<Rightarrow> (string \<times> string) list" where
  "spec_library_paths env dirs base ls =
     map (\<lambda>lib. (lib, case located_file env dirs lib of
                         Some real \<Rightarrow> spec_relative_path base real | None \<Rightarrow> []))
       (rev (remdups (rev (filter (\<lambda>lib. located_file env dirs lib \<noteq> None) ls))))"

text \<open>
  Two platforms are the same when \<^verbatim>\<open>platform.system()\<close> and the \<^verbatim>\<open>os.path\<close> functions agree;
  they list a directory alike when it exists on both or on neither and, where it exists,
  \<^verbatim>\<open>os.listdir\<close> gives the same result.
\<close>

definition same_platform :: "env \<Rightarrow> env \<Rightarrow> bool" where
  "same_platform e1 e2 \<longleftrightarrow>
     platform_system e1 = platform_system e2 \<and> path_join e1 = path_join e2 \<and>
     path_splitext e1 = path_splitext e2"

definition same_listing :: "env \<Rightarrow> env \<Rightarrow> string \<Rightarrow> bool" where
  "same_listing e1 e2 dir \<longleftrightarrow>
     path_exists e1 dir = path_exists e2 dir \<and>
     (path_exists e1 dir \<longrightarrow> listdir e1 dir = listdir e2 dir)"

section \<open>Properties\<close>

subsection \<open>Effects are appended to the world\<close>

lemma world_warned_append_Nil: "w\<lparr>warned := warned w @ []\<rparr> = (w::world)"
  by simp

lemma get_lib_file_paths_writer:
  "\<exists>r ws. \<forall>w. get_lib_file_paths env dirs lib w = (r, w\<lparr>warned := warned w @ ws\<rparr>)"
proof (induction dirs)
  case Nil
  have "\<forall>w. get_lib_file_paths env [] lib w =
          (Inr None, w\<lparr>warned := warned w @ [''The library '' @ lib @ '' cannot be found in the dependency'']\<rparr>)"
    by (simp add: warning_def)
  then show ?case by blast
next
  case (Cons d rest)
  then obtain r ws where ih: "\<And>w. get_lib_file_paths env rest lib w = (r, w\<lparr>warned := warned w @ ws\<rparr>)"
    by blast
  show ?case
  proof (cases "path_exists env d")
    case False
    have "\<forall>w. get_lib_file_paths env (d # rest) lib w =
            (r, w\<lparr>warned := warned w @ (''The library folder doesn't exist: '' @ d) # ws\<rparr>)"
      using False by (simp add: ih warning_def)
    then show ?thesis by blast
  next
    case True
    show ?thesis
    proof (cases "listdir env d")
      case (Inl e)
      have "\<forall>w. get_lib_file_paths env (d # rest) lib w = (Inl e, w\<lparr>warned := warned w @ []\<rparr>)"
        using True Inl by simp
      then show ?thesis by blast
    next
      case (Inr files)
      show ?thesis
      proof (cases "scan_files env d lib files")
        case None
        have "\<forall>w. get_lib_file_paths env (d # rest) lib w = (r, w\<lparr>warned := warned w @ ws\<rparr>)"
          using True Inr None by (simp add: ih)
        then show ?thesis by blast
      next
        case (Some p)
        have "\<forall>w. get_lib_file_paths env (d # rest) lib w = (Inr (Some p), w\<lparr>warned := warned w @ []\<rparr>)"
          using True Inr Some by simp
        then show ?thesis by blast
      qed
    qed
  qed
qed

lemma libs_loop_writer:
  "\<exists>r ws. \<forall>w. libs_loop env dirs pf ls acc w = (r, w\<lparr>warned := warned w @ ws\<rparr>)"
proof (induction ls arbitrary: acc)
  case Nil
  have "\<forall>w. libs_loop env dirs pf [] acc w = (Inr acc, w\<lparr>warned := warned w @ []\<rparr>)"
    by simp
  then show ?case by blast
next
  case (Cons lib rest)
  obtain r1 ws1 where g: "\<And>w. get_lib_file_paths env dirs lib w = (r1, w\<lparr>warned := warned w @ ws1\<rparr>)"
    using get_lib_file_paths_writer by blast
  have step: "\<exists>r ws. \<forall>w. libs_loop env dirs pf rest a (w\<lparr>warned := warned w @ ws1\<rparr>) = (r, w\<lparr>warned := warned w @ ws\<rparr>)" for a
  proof -
    obtain r ws where "\<And>w. libs_loop env dirs pf rest a w = (r, w\<lparr>warned := warned w @ ws\<rparr>)"
      using Cons.IH by blast
    then have "\<forall>w. libs_loop env dirs pf rest a (w\<lparr>warned := warned w @ ws1\<rparr>) = (r, w\<lparr>warned := warned w @ (ws1 @ ws)\<rparr>)"
      by simp
    then show ?thesis by blast
  qed
  have stop: "\<exists>r ws. \<forall>w::world. (Inl e, w\<lparr>warned := warned w @ ws1\<rparr>) = (r, w\<lparr>warned := warned w @ ws\<rparr>)" for e :: error
    by blast
  show ?case
  proof (cases r1)
    case (Inl e)
    then show ?thesis using stop[of e] by (simp add: g)
  next
    case (Inr found)
    show ?thesis
    proof (cases found)
      case None
      then show ?thesis using Inr step[of acc] by (simp add: g)
    next
      case (Some real_path)
      show ?thesis
      proof (cases "real_path = []")
        case True
        then show ?thesis using Inr Some step[of acc] by (simp add: g)
      next
        case False
        show ?thesis
        proof (cases "relativize_path real_path pf")
          case (Inl e)
          then show ?thesis using Inr Some False stop[of e] by (simp add: g)
        next
          case r: (Inr rel)
          then show ?thesis using Inr Some False step[of "dict_set acc lib rel"] by (simp add: g)
        qed
      qed
    qed
  qed
qed

lemma get_dependency_buildfile_context_writer:
  "\<exists>r ws. \<forall>w. get_dependency_buildfile_context env dep w = (r, w\<lparr>warned := warned w @ ws\<rparr>)"
proof -
  obtain r ws where l: "\<And>w. libs_loop env (libdirs (cpp_info dep)) (package_folder dep)
      (libs (cpp_info dep)) [] w = (r, w\<lparr>warned := warned w @ ws\<rparr>)"
    using libs_loop_writer by blast
  show ?thesis
  proof (cases "libs (cpp_info dep) = [] \<and> includedirs (cpp_info dep) = []")
    case True
    then have "\<forall>w. get_dependency_buildfile_context env dep w = (Inr None, w\<lparr>warned := warned w @ []\<rparr>)"
      by (simp add: get_dependency_buildfile_context_def)
    then show ?thesis by blast
  next
    case False
    then have cond: "(libs (cpp_info dep) = [] \<and> includedirs (cpp_info dep) = []) = False"
      by blast
    show ?thesis
    proof (cases "includedirs_loop (package_folder dep) (includedirs (cpp_info dep)) ([], [])")
      case (Inl e)
      then have "\<forall>w. get_dependency_buildfile_context env dep w = (Inl e, w\<lparr>warned := warned w @ []\<rparr>)"
        by (simp add: get_dependency_buildfile_context_def Let_def cond split del: if_split)
      then show ?thesis by blast
    next
      case (Inr hi)
      show ?thesis
      proof (cases r)
        case e: (Inl e)
        have "\<forall>w. get_dependency_buildfile_context env dep w = (Inl e, w\<lparr>warned := warned w @ ws\<rparr>)"
          using Inr e by (simp add: get_dependency_buildfile_context_def l Let_def cond split del: if_split)
        then show ?thesis by blast
      next
        case ls: (Inr ls)
        have "\<exists>c. \<forall>w. get_dependency_buildfile_context env dep w = (Inr (Some c), w\<lparr>warned := warned w @ ws\<rparr>)"
          using Inr ls by (simp add: get_dependency_buildfile_context_def l Let_def cond split del: if_split)
        then show ?thesis by blast
      qed
    qed
  qed
qed

lemma get_dependency_buildfile_content_eq:
  "get_dependency_buildfile_content env dep w =
     (buildfile_content_of env dep, w\<lparr>warned := warned w @ buildfile_warnings_of env dep\<rparr>)"
proof -
  obtain r ws where c: "\<And>w. get_dependency_buildfile_context env dep w = (r, w\<lparr>warned := warned w @ ws\<rparr>)"
    using get_dependency_buildfile_context_writer by blast
  show ?thesis
    by (cases r) (simp_all add: buildfile_content_of_def buildfile_warnings_of_def
        get_dependency_buildfile_content_def c no_effects_def split: option.splits)
qed

subsection \<open>The two loops of \<^verbatim>\<open>generate\<close> when they complete\<close>

lemma save_dependency_buildfile_eq:
  "save_dependency_buildfile dep content gf w =
     (dependency_buildfile_name gf dep,
      w\<lparr>saved := saved w @ [(dependency_buildfile_name gf dep, content)]\<rparr>)"
  by (simp add: save_dependency_buildfile_def dependency_buildfile_name_def save_def Let_def)

lemma build_loop_Inr:
  "build_loop gf deps lr w = (Inr lr', w') \<Longrightarrow>
     lr' = lr @ map (local_repository_of gf) deps \<and>
     saved w' = saved w @
       map (\<lambda>d. (dependency_buildfile_name gf d, get_build_dependency_buildfile_content d)) deps \<and>
     warned w' = warned w"
proof (induction deps arbitrary: lr w)
  case Nil
  then show ?case by simp
next
  case (Cons d deps)
  show ?case
  proof (cases "create_new_local_repository d (dependency_buildfile_name gf d)")
    case (Inl e)
    with Cons.prems show ?thesis by (simp add: save_dependency_buildfile_eq)
  next
    case (Inr s)
    with Cons.prems Cons.IH[of "lr @ [s]"
        "w\<lparr>saved := saved w @ [(dependency_buildfile_name gf d, get_build_dependency_buildfile_content d)]\<rparr>"]
    show ?thesis by (simp add: save_dependency_buildfile_eq local_repository_of_def)
  qed
qed

lemma host_loop_Inr:
  "host_loop env gf deps lr w = (Inr lr', w') \<Longrightarrow>
     lr' = lr @ map (local_repository_of gf) (filter (has_buildfile env) deps) \<and>
     saved w' = saved w @
       map (\<lambda>d. (dependency_buildfile_name gf d, host_buildfile env d))
         (filter (has_buildfile env) deps) \<and>
     warned w' = warned w @ concat (map (buildfile_warnings_of env) deps)"
proof (induction deps arbitrary: lr w)
  case Nil
  then show ?case by simp
next
  case (Cons d deps)
  let ?w1 = "w\<lparr>warned := warned w @ buildfile_warnings_of env d\<rparr>"
  show ?case
  proof (cases "buildfile_content_of env d")
    case (Inl e)
    with Cons.prems show ?thesis by (simp add: get_dependency_buildfile_content_eq)
  next
    case (Inr c)
    show ?thesis
    proof (cases "has_buildfile env d")
      case False
      then have "host_loop env gf (d # deps) lr w = host_loop env gf deps lr ?w1"
        using Inr by (cases c) (simp_all add: get_dependency_buildfile_content_eq has_buildfile_def)
      with Cons.prems Cons.IH[of lr ?w1] False show ?thesis by simp
    next
      case True
      then obtain content where c: "c = Some content" "content \<noteq> []"
        using Inr by (cases c) (simp_all add: has_buildfile_def)
      let ?w2 = "?w1\<lparr>saved := saved ?w1 @ [(dependency_buildfile_name gf d, content)]\<rparr>"
      show ?thesis
      proof (cases "create_new_local_repository d (dependency_buildfile_name gf d)")
        case (Inl e)
        with Cons.prems Inr c show ?thesis
          by (simp add: get_dependency_buildfile_content_eq save_dependency_buildfile_eq)
      next
        case s: (Inr s)
        have "host_loop env gf (d # deps) lr w = host_loop env gf deps (lr @ [s]) ?w2"
          using Inr c s by (simp add: get_dependency_buildfile_content_eq save_dependency_buildfile_eq)
        with Cons.prems Cons.IH[of "lr @ [s]" ?w2] True Inr c s show ?thesis
          by (simp add: local_repository_of_def host_buildfile_def)
      qed
    qed
  qed
qed

lemma generate_Inr:
  assumes "generate env cf w = (Inr u, w')"
  shows "saved w' = saved w @
            map (\<lambda>d. (dependency_buildfile_name (generators_folder cf) d,
                       get_build_dependency_buildfile_content d)) (direct_build cf) @
            map (\<lambda>d. (dependency_buildfile_name (generators_folder cf) d, host_buildfile env d))
              (filter (has_buildfile env) (host cf)) @
            [(generators_folder cf @ ''/BUILD'', []),
             (generators_folder cf @ ''/dependencies.bzl'',
              get_main_buildfile_content
                (map (local_repository_of (generators_folder cf))
                   (direct_build cf @ filter (has_buildfile env) (host cf))))] \<and>
         warned w' = warned w @ concat (map (buildfile_warnings_of env) (host cf))"
proof -
  let ?gf = "generators_folder cf"
  obtain r1 w1 where b: "build_loop ?gf (direct_build cf) [] w = (r1, w1)"
    by (cases "build_loop ?gf (direct_build cf) [] w")
  show ?thesis
  proof (cases r1)
    case (Inl e)
    with assms b show ?thesis by (simp add: generate_def Let_def)
  next
    case (Inr built)
    obtain r2 w2 where h: "host_loop env ?gf (host cf) built w1 = (r2, w2)"
      by (cases "host_loop env ?gf (host cf) built w1")
    show ?thesis
    proof (cases r2)
      case (Inl e)
      with assms b Inr h show ?thesis by (simp add: generate_def Let_def)
    next
      case lr: (Inr lr)
      from build_loop_Inr[OF b[unfolded Inr]] host_loop_Inr[OF h[unfolded lr]] assms b Inr h lr
      show ?thesis
        by (auto simp add: generate_def save_main_buildfiles_def save_def Let_def)
    qed
  qed
qed

subsection \<open>The library file locator\<close>

lemma lib_name_spec_stem: "lib_name env f = spec_stem (path_splitext env f)"
  by (cases "path_splitext env f") (auto simp add: lib_name_def spec_stem_def)

lemma scan_files_find:
  "scan_files env libdir lib files =
     map_option (path_join env libdir) (List.find (\<lambda>f. spec_stem (path_splitext env f) = lib) files)"
  by (induction files) (auto simp add: lib_name_spec_stem)

text \<open>
  Claim C5. In a library directory that exists and can be listed, the locator goes through
  the file names in the order of the listing and returns the directory joined with the
  first file whose stem equals the library name, where the stem of a \<^verbatim>\<open>.so\<close>, \<^verbatim>\<open>.a\<close>,
  \<^verbatim>\<open>.dylib\<close> or \<^verbatim>\<open>.bc\<close> file loses a leading \<^verbatim>\<open>lib\<close> and the stem of any other file,
  \<^verbatim>\<open>.lib\<close> files among them, is taken as it is; without such a file it goes on with the
  next directory.
\<close>

theorem locator_returns_first_match:
  assumes "path_exists env libdir" and "listdir env libdir = Inr files"
  shows "get_lib_file_paths env (libdir # rest) lib w =
           (case List.find (\<lambda>f. spec_stem (path_splitext env f) = lib) files of
              Some f \<Rightarrow> (Inr (Some (path_join env libdir f)), w)
            | None \<Rightarrow> get_lib_file_paths env rest lib w)"
  using assms by (simp add: scan_files_find split: option.splits)

theorem locator_returns_first_match_witness:
  "path_exists (posix_env ''Linux'' [(''/p/lib'', [''libz.so.1'', ''libz.a'', ''z.lib''])]) ''/p/lib'' \<and>
   listdir (posix_env ''Linux'' [(''/p/lib'', [''libz.so.1'', ''libz.a'', ''z.lib''])]) ''/p/lib'' =
     Inr [''libz.so.1'', ''libz.a'', ''z.lib''] \<and>
   get_lib_file_paths (posix_env ''Linux'' [(''/p/lib'', [''libz.so.1'', ''libz.a'', ''z.lib''])])
     [''/p/lib''] ''z'' \<lparr>saved = [], warned = []\<rparr> =
     (Inr (Some ''/p/lib/libz.a''), \<lparr>saved = [], warned = []\<rparr>)"
proof -
  let ?e = "posix_env ''Linux'' [(''/p/lib'', [''libz.so.1'', ''libz.a'', ''z.lib''])]"
  let ?w = "\<lparr>saved = [], warned = []\<rparr>"
  have h1: "path_exists ?e ''/p/lib''"
    by code_simp
  have h2: "listdir ?e ''/p/lib'' = Inr [''libz.so.1'', ''libz.a'', ''z.lib'']"
    by code_simp
  have f: "List.find (\<lambda>f. spec_stem (path_splitext ?e f) = ''z'') [''libz.so.1'', ''libz.a'', ''z.lib'']
             = Some ''libz.a''"
    by code_simp
  have j: "path_join ?e ''/p/lib'' ''libz.a'' = ''/p/lib/libz.a''"
    by code_simp
  from locator_returns_first_match[OF h1 h2, of "[]" "''z''" ?w]
  have "get_lib_file_paths ?e [''/p/lib''] ''z'' ?w = (Inr (Some ''/p/lib/libz.a''), ?w)"
    by (simp only: f j option.case)
  with h1 h2 show ?thesis by blast
qed

subsection \<open>Files with other extensions, directories that do not exist\<close>

lemma scan_files_skip:
  "\<forall>g\<in>set pre. lib_name env g \<noteq> lib \<Longrightarrow>
     scan_files env libdir lib (pre @ files) = scan_files env libdir lib files"
  by (induction pre) auto

text \<open>
  Claim C10. A file whose extension is none of \<^verbatim>\<open>.so\<close>, \<^verbatim>\<open>.lib\<close>, \<^verbatim>\<open>.a\<close>, \<^verbatim>\<open>.dylib\<close>,
  \<^verbatim>\<open>.bc\<close> is compared under its full stem, nothing stripped; when that stem is the
  library name and no earlier file of the listing matches, the locator returns the
  directory joined with this file. The witness is the file \<^verbatim>\<open>foo.dll\<close> for the library
  \<^verbatim>\<open>foo\<close>.
\<close>

theorem unrecognised_extension_matches_full_stem:
  assumes "path_splitext env f = (stem, ext)"
    and "ext \<notin> set [''.so'', ''.lib'', ''.a'', ''.dylib'', ''.bc'']"
    and "path_exists env libdir"
    and "listdir env libdir = Inr (pre @ f # post)"
    and "\<forall>g\<in>set pre. lib_name env g \<noteq> stem"
  shows "lib_name env f = stem \<and>
         get_lib_file_paths env (libdir # rest) stem w = (Inr (Some (path_join env libdir f)), w)"
proof -
  have n: "lib_name env f = stem"
    using assms(1,2) by (simp add: lib_name_def)
  have "scan_files env libdir stem (pre @ f # post) = Some (path_join env libdir f)"
    using assms(5) n by (simp add: scan_files_skip)
  with assms(3,4) n show ?thesis by simp
qed

theorem unrecognised_extension_matches_full_stem_witness:
  "path_splitext (posix_env ''Linux'' [(''/p/bin'', [''libfoo.txt'', ''foo.dll''])]) ''foo.dll'' =
     (''foo'', ''.dll'') \<and>
   ''.dll'' \<notin> set [''.so'', ''.lib'', ''.a'', ''.dylib'', ''.bc''] \<and>
   path_exists (posix_env ''Linux'' [(''/p/bin'', [''libfoo.txt'', ''foo.dll''])]) ''/p/bin'' \<and>
   listdir (posix_env ''Linux'' [(''/p/bin'', [''libfoo.txt'', ''foo.dll''])]) ''/p/bin'' =
     Inr ([''libfoo.txt''] @ ''foo.dll'' # []) \<and>
   lib_name (posix_env ''Linux'' [(''/p/bin'', [''libfoo.txt'', ''foo.dll''])]) ''libfoo.txt'' \<noteq> ''foo'' \<and>
   lib_name (posix_env ''Linux'' [(''/p/bin'', [''libfoo.txt'', ''foo.dll''])]) ''foo.dll'' = ''foo'' \<and>
   get_lib_file_paths (posix_env ''Linux'' [(''/p/bin'', [''libfoo.txt'', ''foo.dll''])])
     [''/p/bin''] ''foo'' \<lparr>saved = [], warned = []\<rparr> =
     (Inr (Some ''/p/bin/foo.dll''), \<lparr>saved = [], warned = []\<rparr>)"
proof -
  let ?e = "posix_env ''Linux'' [(''/p/bin'', [''libfoo.txt'', ''foo.dll''])]"
  let ?w = "\<lparr>saved = [], warned = []\<rparr>"
  have h1: "path_splitext ?e ''foo.dll'' = (''foo'', ''.dll'')"
    by code_simp
  have h2: "''.dll'' \<notin> set [''.so'', ''.lib'', ''.a'', ''.dylib'', ''.bc'']"
    by simp
  have h3: "path_exists ?e ''/p/bin''"
    by code_simp
  have h4: "listdir ?e ''/p/bin'' = Inr ([''libfoo.txt''] @ ''foo.dll'' # [])"
    by code_simp
  have n: "lib_name ?e ''libfoo.txt'' \<noteq> ''foo''"
    by code_simp
  then have h5: "\<forall>g\<in>set [''libfoo.txt'']. lib_name ?e g \<noteq> ''foo''"
    by simp
  have j: "path_join ?e ''/p/bin'' ''foo.dll'' = ''/p/bin/foo.dll''"
    by code_simp
  from unrecognised_extension_matches_full_stem[OF h1 h2 h3 h4 h5, of "[]" ?w]
  have "lib_name ?e ''foo.dll'' = ''foo'' \<and>
        get_lib_file_paths ?e [''/p/bin''] ''foo'' ?w = (Inr (Some ''/p/bin/foo.dll''), ?w)"
    by (simp only: j)
  with h1 h2 h3 h4 n show ?thesis by blast
qed

lemma get_lib_file_paths_result:
  "fst (get_lib_file_paths env dirs lib w) = fst (get_lib_file_paths env dirs lib w')"
proof -
  obtain r ws where "\<And>w. get_lib_file_paths env dirs lib w = (r, w\<lparr>warned := warned w @ ws\<rparr>)"
    using get_lib_file_paths_writer by blast
  then show ?thesis by simp
qed

lemma get_lib_file_paths_drop_missing:
  "\<not> path_exists env libdir \<Longrightarrow>
     fst (get_lib_file_paths env (pre @ libdir # rest) lib w) =
     fst (get_lib_file_paths env (pre @ rest) lib w)"
proof (induction pre arbitrary: w)
  case Nil
  then show ?case using get_lib_file_paths_result[of env rest lib] by simp
next
  case (Cons d pre)
  then show ?case
    by (simp split: sum.splits option.splits)
qed

text \<open>
  Claim C1 says that a library directory which does not exist makes the generation raise.
  The source warns and goes on to the next directory: here \<^verbatim>\<open>/p/lib64\<close> does not exist,
  the library is found in \<^verbatim>\<open>/p/lib\<close>, and \<^verbatim>\<open>generate\<close> returns with one warning.
\<close>

theorem missing_libdir_raises_counterexample:
  "\<not> path_exists (posix_env ''Linux'' [(''/p/lib'', [''libz.a''])]) ''/p/lib64'' \<and>
   ''/p/lib64'' \<in> set (libdirs (cpp_info
      \<lparr>ref_name = ''zlib'', package_folder = Some ''/p'',
       cpp_info = \<lparr>includedirs = [], libdirs = [''/p/lib64'', ''/p/lib''], libs = [''z''],
                   cpp_defines = [], system_libs = []\<rparr>,
       dependencies = [], shared = False\<rparr>)) \<and>
   fst (generate (posix_env ''Linux'' [(''/p/lib'', [''libz.a''])])
     \<lparr>generators_folder = ''/g'', direct_build = [],
      host = [\<lparr>ref_name = ''zlib'', package_folder = Some ''/p'',
       cpp_info = \<lparr>includedirs = [], libdirs = [''/p/lib64'', ''/p/lib''], libs = [''z''],
                   cpp_defines = [], system_libs = []\<rparr>,
       dependencies = [], shared = False\<rparr>]\<rparr>
     \<lparr>saved = [], warned = []\<rparr>) = Inr () \<and>
   warned (snd (generate (posix_env ''Linux'' [(''/p/lib'', [''libz.a''])])
     \<lparr>generators_folder = ''/g'', direct_build = [],
      host = [\<lparr>ref_name = ''zlib'', package_folder = Some ''/p'',
       cpp_info = \<lparr>includedirs = [], libdirs = [''/p/lib64'', ''/p/lib''], libs = [''z''],
                   cpp_defines = [], system_libs = []\<rparr>,
       dependencies = [], shared = False\<rparr>]\<rparr>
     \<lparr>saved = [], warned = []\<rparr>)) = [''The library folder doesn't exist: /p/lib64'']"
  by code_simp

text \<open>
  Claim C1, amended. When a library directory listed in \<^verbatim>\<open>libdirs\<close> does not exist, the
  locator emits the warning \<^verbatim>\<open>The library folder doesn't exist: <dir>\<close> and goes on with
  the directories that follow; what it returns is what it returns for the list without
  that directory, and a directory that does not exist is never by itself a reason to raise.
\<close>

theorem missing_libdir_is_skipped_with_warning:
  assumes "\<not> path_exists env libdir"
  shows "get_lib_file_paths env (libdir # rest) lib w =
           get_lib_file_paths env rest lib
             (warning (''The library folder doesn't exist: '' @ libdir) w) \<and>
         fst (get_lib_file_paths env (pre @ libdir # rest) lib w) =
           fst (get_lib_file_paths env (pre @ rest) lib w) \<and>
         fst (get_lib_file_paths env [libdir] lib w) = Inr None"
  using assms get_lib_file_paths_drop_missing[of env libdir pre rest lib w] by simp

theorem missing_libdir_is_skipped_with_warning_witness:
  "\<not> path_exists (posix_env ''Linux'' [(''/p/lib'', [''libz.a''])]) ''/p/lib64'' \<and>
   get_lib_file_paths (posix_env ''Linux'' [(''/p/lib'', [''libz.a''])]) [''/p/lib64'', ''/p/lib''] ''z''
     \<lparr>saved = [], warned = []\<rparr> =
     (Inr (Some ''/p/lib/libz.a''),
      \<lparr>saved = [], warned = [''The library folder doesn't exist: /p/lib64'']\<rparr>)"
proof -
  let ?e = "posix_env ''Linux'' [(''/p/lib'', [''libz.a''])]"
  let ?w = "\<lparr>saved = [], warned = []\<rparr>"
  have h: "\<not> path_exists ?e ''/p/lib64''"
    by code_simp
  have r: "get_lib_file_paths ?e [''/p/lib''] ''z''
             (warning (''The library folder doesn't exist: '' @ ''/p/lib64'') ?w) =
           (Inr (Some ''/p/lib/libz.a''),
            \<lparr>saved = [], warned = [''The library folder doesn't exist: /p/lib64'']\<rparr>)"
    by code_simp
  from missing_libdir_is_skipped_with_warning[OF h, of "[''/p/lib'']" "''z''" ?w]
  have "get_lib_file_paths ?e [''/p/lib64'', ''/p/lib''] ''z'' ?w =
          (Inr (Some ''/p/lib/libz.a''),
           \<lparr>saved = [], warned = [''The library folder doesn't exist: /p/lib64'']\<rparr>)"
    by (simp only: r)
  with h show ?thesis by blast
qed

subsection \<open>Paths relative to the package folder\<close>

lemma relativize_path_spec:
  "relativize_path p (Some base) = Inr (spec_relative_path base p)"
  by (simp add: relativize_path_def spec_relative_path_def)

lemma lstrip_no_leading: "\<not> startswith (lstrip ''/'' s) ''/''"
proof
  assume "startswith (lstrip ''/'' s) ''/''"
  then obtain t where t: "dropWhile (\<lambda>c. c \<in> set ''/'') s = CHR ''/'' # t"
    by (auto simp add: startswith_def lstrip_def prefix_def)
  then have "dropWhile (\<lambda>c. c \<in> set ''/'') s \<noteq> []"
    by simp
  from hd_dropWhile[OF this] t show False
    by simp
qed

lemma replace_backslash_set: "backslash \<notin> set (replace backslash ''/'' s)"
  by (induction s) (auto simp add: replace_def backslash_def)

lemma lstrip_subset: "set (lstrip cs s) \<subseteq> set s"
  by (simp add: lstrip_def set_dropWhileD subsetI)

lemma spec_relative_path_clean:
  "\<not> startswith (spec_relative_path base p) ''/'' \<and> backslash \<notin> set (spec_relative_path base p)"
  using lstrip_no_leading replace_backslash_set lstrip_subset
  unfolding spec_relative_path_def by blast

lemma includedirs_loop_Some:
  \<open>includedirs_loop (Some base) paths acc =
     Inr (fst acc @ map (\<lambda>p. ''"'' @ spec_relative_path base p @ ''/**"'') paths,
          snd acc @ map (\<lambda>p. ''"'' @ spec_relative_path base p @ ''"'') paths)\<close>
  by (induction paths arbitrary: acc) (simp_all add: relativize_path_spec)

lemma libs_loop_foldl:
  "libs_loop env dirs (Some base) ls acc w = (Inr r, w') \<Longrightarrow>
     r = foldl (\<lambda>a lib. case located_file env dirs lib of
                           None \<Rightarrow> a
                         | Some real \<Rightarrow> dict_set a lib (spec_relative_path base real)) acc ls"
proof (induction ls arbitrary: acc w)
  case Nil
  then show ?case by simp
next
  case (Cons l ls)
  obtain r1 w1 where g: "get_lib_file_paths env dirs l w = (r1, w1)"
    by (cases "get_lib_file_paths env dirs l w")
  then have g0: "fst (get_lib_file_paths env dirs l no_effects) = r1"
    using get_lib_file_paths_result[of env dirs l no_effects w] by simp
  show ?case
  proof (cases r1)
    case (Inl e)
    with Cons.prems g show ?thesis by simp
  next
    case (Inr found)
    show ?thesis
    proof (cases found)
      case None
      with Cons.prems g Inr Cons.IH[of acc w1] g0 show ?thesis
        by (simp add: located_file_def)
    next
      case (Some real)
      show ?thesis
      proof (cases "real = []")
        case True
        with Cons.prems g Inr Some Cons.IH[of acc w1] g0 show ?thesis
          by (simp add: located_file_def)
      next
        case False
        with Cons.prems g Inr Some
        have "libs_loop env dirs (Some base) ls (dict_set acc l (spec_relative_path base real)) w1
                = (Inr r, w')"
          by (simp add: relativize_path_spec)
        from Cons.IH[OF this] False Inr Some g0 show ?thesis
          by (simp add: located_file_def)
      qed
    qed
  qed
qed

lemma dict_set_keyed:
  "dict_set (map (\<lambda>k. (k, val k)) ks) k (val k) =
     map (\<lambda>k. (k, val k)) (if k \<in> set ks then ks else ks @ [k])"
  by (induction ks) auto

lemma foldl_dict_set_keyed:
  "foldl (\<lambda>a k. case f k of None \<Rightarrow> a | Some v \<Rightarrow> dict_set a k (g v)) (map (\<lambda>k. (k, val k)) ks) ls =
     map (\<lambda>k. (k, val k))
       (foldl (\<lambda>ks k. if k \<in> set ks then ks else ks @ [k]) ks (filter (\<lambda>k. f k \<noteq> None) ls))"
  if "\<And>k. val k = (case f k of Some v \<Rightarrow> g v | None \<Rightarrow> [])"
proof (induction ls arbitrary: ks)
  case Nil
  show ?case by simp
next
  case (Cons l ls)
  show ?case
  proof (cases "f l")
    case None
    then show ?thesis using Cons.IH[of ks] by simp
  next
    case (Some v)
    then have v: "g v = val l"
      by (simp add: that)
    show ?thesis
      using Some Cons.IH[of "if l \<in> set ks then ks else ks @ [l]"]
      by (simp add: v dict_set_keyed del: map_append split del: if_split)
  qed
qed

lemma foldl_first_occurrences:
  "foldl (\<lambda>ks k. if k \<in> set ks then ks else ks @ [k]) [] xs = rev (remdups (rev xs))"
  by (induction xs rule: rev_induct) auto

lemma libs_loop_spec:
  assumes "libs_loop env dirs (Some base) ls [] w = (Inr r, w')"
  shows "r = spec_library_paths env dirs base ls"
proof -
  let ?val = "\<lambda>lib. case located_file env dirs lib of
                       Some real \<Rightarrow> spec_relative_path base real | None \<Rightarrow> []"
  from libs_loop_foldl[OF assms]
  have "r = foldl (\<lambda>a lib. case located_file env dirs lib of
                           None \<Rightarrow> a
                         | Some real \<Rightarrow> dict_set a lib (spec_relative_path base real))
              (map (\<lambda>k. (k, ?val k)) []) ls"
    by simp
  also have "\<dots> = map (\<lambda>k. (k, ?val k))
       (foldl (\<lambda>ks k. if k \<in> set ks then ks else ks @ [k]) []
          (filter (\<lambda>k. located_file env dirs k \<noteq> None) ls))"
    by (rule foldl_dict_set_keyed) simp
  finally show ?thesis
    by (simp add: foldl_first_occurrences spec_library_paths_def)
qed

lemma spec_library_paths_clean:
  "(lib, path) \<in> set (spec_library_paths env dirs base ls) \<Longrightarrow>
     \<not> startswith path ''/'' \<and> backslash \<notin> set path"
  using spec_relative_path_clean
  by (auto simp add: spec_library_paths_def startswith_def split: option.splits)

text \<open>
  Claim C7. For a dependency with a package folder, the BUILD file that is rendered and
  saved holds the include directories and the located library files as paths made
  relative: a path that starts with the package folder is emitted as the remainder after
  that prefix, any other path whole, in both cases with every backslash replaced by a slash
  and the leading slashes removed, so that no emitted path starts with a slash or contains a
  backslash. The theorem gives the whole text of the file: every include directory appears
  in \<^verbatim>\<open>includes\<close> as its relative path and in \<^verbatim>\<open>hdrs\<close> as that path followed by \<^verbatim>\<open>/**\<close>
  (for an include directory that is the package folder itself the path is empty and the
  glob reads \<^verbatim>\<open>/**\<close>), and the \<^verbatim>\<open>cc_import\<close> rules are exactly those of the libraries that
  the locator finds, each with the relative path of the file found.
\<close>

theorem emitted_paths_are_relative_to_package_folder:
  assumes "package_folder dep = Some base"
    and "get_dependency_buildfile_content env dep w = (Inr (Some content), w')"
  shows \<open>(let paths = map (spec_relative_path base) (includedirs (cpp_info dep));
              files = spec_library_paths env (libdirs (cpp_info dep)) base (libs (cpp_info dep));
              hdrs = join '', '' (map (\<lambda>path. ''"'' @ path @ ''/**"'') paths);
              incs = join '', '' (map (\<lambda>path. ''"'' @ path @ ''"'') paths);
              defs = join '', '' (map format_define (cpp_defines (cpp_info dep)));
              opts = join '', '' (map (format_linkopt env) (system_libs (cpp_info dep)));
              library_type = (if shared dep then ''shared_library'' else ''static_library'')
          in content =
               ''\<newline>load("@rules_cc//cc:defs.bzl", "cc_import", "cc_library")\<newline>\<newline>'' @
               concat (map (\<lambda>(lib, path).
                  ''\<newline>cc_import(\<newline>    name = "'' @ lib @ ''_precompiled",\<newline>    '' @
                  library_type @ '' = "'' @ path @ ''"\<newline>)\<newline>'') files) @
               ''\<newline>\<newline>cc_library(\<newline>    name = "'' @ ref_name dep @ ''",\<newline>    '' @
               (if hdrs = [] then [] else ''\<newline>    hdrs = glob(['' @ hdrs @ '']),\<newline>    '') @
               ''\<newline>    '' @
               (if incs = [] then [] else ''\<newline>    includes = ['' @ incs @ ''],\<newline>    '') @
               ''\<newline>    '' @
               (if defs = [] then [] else ''\<newline>    defines = ['' @ defs @ ''],\<newline>    '') @
               ''\<newline>    '' @
               (if opts = [] then [] else ''\<newline>    linkopts = ['' @ opts @ ''],\<newline>    '') @
               ''\<newline>    visibility = ["//visibility:public"],\<newline>    '' @
               (if files = [] then []
                else ''\<newline>    deps = [\<newline>    '' @
                     concat (map (\<lambda>(lib, path). ''\<newline>    ":'' @ lib @ ''_precompiled",\<newline>    '') files) @
                     ''\<newline>    '' @
                     concat (map (\<lambda>d. ''\<newline>    "@'' @ d @ ''",\<newline>    '') (dependencies dep)) @
                     ''\<newline>    ],\<newline>    '') @
               ''\<newline>)\<newline>'' \<and>
             (\<forall>path\<in>set paths \<union> snd ` set files.
                \<not> startswith path ''/'' \<and> backslash \<notin> set path)) \<and>
         saved (snd (host_loop env gf [dep] lr w)) =
           saved w' @ [(gf @ ''/'' @ ref_name dep @ ''/BUILD'', content)] \<and>
         spec_relative_path base (base @ rest) = lstrip ''/'' (replace backslash ''/'' rest) \<and>
         (\<not> startswith p base \<longrightarrow>
            spec_relative_path base p = lstrip ''/'' (replace backslash ''/'' p))\<close>
proof -
  let ?info = "cpp_info dep"
  have cond: "(libs ?info = [] \<and> includedirs ?info = []) = False"
    using assms(2)
    by (auto simp add: get_dependency_buildfile_content_def get_dependency_buildfile_context_def)
  obtain r w1 where l: "libs_loop env (libdirs ?info) (Some base) (libs ?info) [] w = (r, w1)"
    by (cases "libs_loop env (libdirs ?info) (Some base) (libs ?info) [] w")
  from assms l obtain ls where r: "r = Inr ls"
    by (cases r) (simp_all add: get_dependency_buildfile_content_def
        get_dependency_buildfile_context_def Let_def cond includedirs_loop_Some split del: if_split)
  have ls: "ls = spec_library_paths env (libdirs ?info) base (libs ?info)"
    using libs_loop_spec[OF l[unfolded r]] .
  from assms l r have content: \<open>content = render
      \<lparr>ctx_name = ref_name dep,
       ctx_libs = ls,
       ctx_libdir = ''lib'',
       ctx_headers = join '', '' (map (\<lambda>p. ''"'' @ spec_relative_path base p @ ''/**"'') (includedirs ?info)),
       ctx_includes = join '', '' (map (\<lambda>p. ''"'' @ spec_relative_path base p @ ''"'') (includedirs ?info)),
       ctx_defines = join '', '' (map format_define (cpp_defines ?info)),
       ctx_linkopts = join '', '' (map (format_linkopt env) (system_libs ?info)),
       ctx_library_type = (if shared dep then ''shared_library'' else ''static_library''),
       ctx_dependencies = dependencies dep\<rparr>\<close>
    by (simp add: get_dependency_buildfile_content_def get_dependency_buildfile_context_def
        Let_def cond includedirs_loop_Some split del: if_split)
  have clean: "\<not> startswith path ''/'' \<and> backslash \<notin> set path"
    if "path \<in> set (map (spec_relative_path base) (includedirs ?info)) \<union> snd ` set ls" for path
    using that spec_relative_path_clean[of base] spec_library_paths_clean[of _ path env "libdirs ?info" base "libs ?info"]
    unfolding ls by auto
  have under: "spec_relative_path base (base @ rest) = lstrip ''/'' (replace backslash ''/'' rest)"
    by (simp add: spec_relative_path_def startswith_def)
  have other: "\<not> startswith p base \<longrightarrow>
                 spec_relative_path base p = lstrip ''/'' (replace backslash ''/'' p)"
    by (simp add: spec_relative_path_def)
  have rendered: \<open>render
      \<lparr>ctx_name = n, ctx_libs = fs, ctx_libdir = ld, ctx_headers = hs, ctx_includes = ics,
       ctx_defines = ds, ctx_linkopts = os, ctx_library_type = lt, ctx_dependencies = dd\<rparr> =
               ''\<newline>load("@rules_cc//cc:defs.bzl", "cc_import", "cc_library")\<newline>\<newline>'' @
               concat (map (\<lambda>(lib, path).
                  ''\<newline>cc_import(\<newline>    name = "'' @ lib @ ''_precompiled",\<newline>    '' @
                  lt @ '' = "'' @ path @ ''"\<newline>)\<newline>'') fs) @
               ''\<newline>\<newline>cc_library(\<newline>    name = "'' @ n @ ''",\<newline>    '' @
               (if hs = [] then [] else ''\<newline>    hdrs = glob(['' @ hs @ '']),\<newline>    '') @
               ''\<newline>    '' @
               (if ics = [] then [] else ''\<newline>    includes = ['' @ ics @ ''],\<newline>    '') @
               ''\<newline>    '' @
               (if ds = [] then [] else ''\<newline>    defines = ['' @ ds @ ''],\<newline>    '') @
               ''\<newline>    '' @
               (if os = [] then [] else ''\<newline>    linkopts = ['' @ os @ ''],\<newline>    '') @
               ''\<newline>    visibility = ["//visibility:public"],\<newline>    '' @
               (if fs = [] then []
                else ''\<newline>    deps = [\<newline>    '' @
                     concat (map (\<lambda>(lib, path). ''\<newline>    ":'' @ lib @ ''_precompiled",\<newline>    '') fs) @
                     ''\<newline>    '' @
                     concat (map (\<lambda>d. ''\<newline>    "@'' @ d @ ''",\<newline>    '') dd) @
                     ''\<newline>    ],\<newline>    '') @
               ''\<newline>)\<newline>''\<close> for n fs ld hs ics ds os lt dd
  proof -
    have cc: \<open>render_cc_import c =
        (\<lambda>(lib, path). ''\<newline>cc_import(\<newline>    name = "'' @ lib @ ''_precompiled",\<newline>    '' @
           ctx_library_type c @ '' = "'' @ path @ ''"\<newline>)\<newline>'')\<close> for c
      by (auto simp add: fun_eq_iff render_cc_import_def)
    have dd: \<open>(\<lambda>kv. ''\<newline>    ":'' @ fst kv @ ''_precompiled",\<newline>    '') =
        (\<lambda>(lib, path). ''\<newline>    ":'' @ lib @ ''_precompiled",\<newline>    '')\<close>
      by (auto simp add: fun_eq_iff)
    show ?thesis
      unfolding render_def render_if_def cc dd by simp
  qed
  have "content \<noteq> []"
    unfolding content by (simp add: render_def)
  then have written: "saved (snd (host_loop env gf [dep] lr w)) =
           saved w' @ [(gf @ ''/'' @ ref_name dep @ ''/BUILD'', content)]"
    using assms
    by (simp add: save_dependency_buildfile_eq dependency_buildfile_name_def
        create_new_local_repository_def)
  show ?thesis
    unfolding Let_def
    using content clean under other written
    by (simp only: rendered ls comp_def map_map) blast
qed

theorem emitted_paths_are_relative_to_package_folder_witness:
  \<open>package_folder
     \<lparr>ref_name = ''zlib'', package_folder = Some ''/p/zlib'',
      cpp_info = \<lparr>includedirs = [''/p/zlib/include'', ''/usr/include''], libdirs = [''/p/zlib/lib''],
                  libs = [''z''], cpp_defines = [], system_libs = []\<rparr>,
      dependencies = [], shared = False\<rparr> = Some ''/p/zlib'' \<and>
   get_dependency_buildfile_content (posix_env ''Linux'' [(''/p/zlib/lib'', [''libz.a''])])
     \<lparr>ref_name = ''zlib'', package_folder = Some ''/p/zlib'',
      cpp_info = \<lparr>includedirs = [''/p/zlib/include'', ''/usr/include''], libdirs = [''/p/zlib/lib''],
                  libs = [''z''], cpp_defines = [], system_libs = []\<rparr>,
      dependencies = [], shared = False\<rparr>
     \<lparr>saved = [], warned = []\<rparr> =
     (Inr (Some
        (''\<newline>load("@rules_cc//cc:defs.bzl", "cc_import", "cc_library")\<newline>\<newline>'' @
         ''\<newline>cc_import(\<newline>    name = "z_precompiled",\<newline>'' @
         ''    static_library = "lib/libz.a"\<newline>)\<newline>'' @
         ''\<newline>\<newline>cc_library(\<newline>    name = "zlib",\<newline>    '' @
         ''\<newline>    hdrs = glob(["include/**", "usr/include/**"]),\<newline>    '' @
         ''\<newline>    '' @
         ''\<newline>    includes = ["include", "usr/include"],\<newline>    '' @
         ''\<newline>    '' @
         ''\<newline>    '' @
         ''\<newline>    visibility = ["//visibility:public"],\<newline>    '' @
         ''\<newline>    deps = [\<newline>    '' @
         ''\<newline>    ":z_precompiled",\<newline>    '' @
         ''\<newline>    '' @
         ''\<newline>    ],\<newline>    '' @
         ''\<newline>)\<newline>'')),
      \<lparr>saved = [], warned = []\<rparr>) \<and>
   map (spec_relative_path ''/p/zlib'') [''/p/zlib/include'', ''/usr/include''] =
     [''include'', ''usr/include''] \<and>
   spec_library_paths (posix_env ''Linux'' [(''/p/zlib/lib'', [''libz.a''])])
     [''/p/zlib/lib''] ''/p/zlib'' [''z''] = [(''z'', ''lib/libz.a'')] \<and>
   \<not> startswith ''lib/libz.a'' ''/'' \<and> backslash \<notin> set ''lib/libz.a'' \<and>
   spec_relative_path ''/p/zlib'' (''/p/zlib'' @ ''/include'') =
     lstrip ''/'' (replace backslash ''/'' ''/include'') \<and>
   map fst (saved (snd (host_loop (posix_env ''Linux'' [(''/p/zlib/lib'', [''libz.a''])]) ''/g''
     [\<lparr>ref_name = ''zlib'', package_folder = Some ''/p/zlib'',
       cpp_info = \<lparr>includedirs = [''/p/zlib/include'', ''/usr/include''], libdirs = [''/p/zlib/lib''],
                   libs = [''z''], cpp_defines = [], system_libs = []\<rparr>,
       dependencies = [], shared = False\<rparr>] [] \<lparr>saved = [], warned = []\<rparr>))) =
     [''/g/zlib/BUILD'']\<close>
proof -
  let ?dep = "\<lparr>ref_name = ''zlib'', package_folder = Some ''/p/zlib'',
      cpp_info = \<lparr>includedirs = [''/p/zlib/include'', ''/usr/include''], libdirs = [''/p/zlib/lib''],
                  libs = [''z''], cpp_defines = [], system_libs = []\<rparr>,
      dependencies = [], shared = False\<rparr>"
  let ?e = "posix_env ''Linux'' [(''/p/zlib/lib'', [''libz.a''])]"
  let ?w = "\<lparr>saved = [], warned = []\<rparr>"
  let ?content = \<open>
         ''\<newline>load("@rules_cc//cc:defs.bzl", "cc_import", "cc_library")\<newline>\<newline>'' @
         ''\<newline>cc_import(\<newline>    name = "z_precompiled",\<newline>'' @
         ''    static_library = "lib/libz.a"\<newline>)\<newline>'' @
         ''\<newline>\<newline>cc_library(\<newline>    name = "zlib",\<newline>    '' @
         ''\<newline>    hdrs = glob(["include/**", "usr/include/**"]),\<newline>    '' @
         ''\<newline>    '' @
         ''\<newline>    includes = ["include", "usr/include"],\<newline>    '' @
         ''\<newline>    '' @
         ''\<newline>    '' @
         ''\<newline>    visibility = ["//visibility:public"],\<newline>    '' @
         ''\<newline>    deps = [\<newline>    '' @
         ''\<newline>    ":z_precompiled",\<newline>    '' @
         ''\<newline>    '' @
         ''\<newline>    ],\<newline>    '' @
         ''\<newline>)\<newline>''\<close>
  have h1: "package_folder ?dep = Some ''/p/zlib''"
    by simp
  have h2: "get_dependency_buildfile_content ?e ?dep ?w = (Inr (Some ?content), ?w)"
    by code_simp
  have paths: "map (spec_relative_path ''/p/zlib'') [''/p/zlib/include'', ''/usr/include''] =
                 [''include'', ''usr/include'']"
    by code_simp
  have files: "spec_library_paths ?e [''/p/zlib/lib''] ''/p/zlib'' [''z''] = [(''z'', ''lib/libz.a'')]"
    by code_simp
  note t = emitted_paths_are_relative_to_package_folder[OF h1 h2,
      where gf = "''/g''" and lr = "[]" and rest = "''/include''" and p = "''/usr/include''"]
  from t have "\<forall>path\<in>set (map (spec_relative_path ''/p/zlib'') (includedirs (cpp_info ?dep))) \<union>
                   snd ` set (spec_library_paths ?e (libdirs (cpp_info ?dep)) ''/p/zlib''
                                (libs (cpp_info ?dep))).
                \<not> startswith path ''/'' \<and> backslash \<notin> set path"
    unfolding Let_def by blast
  then have clean: "\<not> startswith ''lib/libz.a'' ''/'' \<and> backslash \<notin> set ''lib/libz.a''"
    by (simp add: files)
  from t have under: "spec_relative_path ''/p/zlib'' (''/p/zlib'' @ ''/include'') =
     lstrip ''/'' (replace backslash ''/'' ''/include'')"
    by blast
  from t have "saved (snd (host_loop ?e ''/g'' [?dep] [] ?w)) =
                  saved ?w @ [(''/g'' @ ''/'' @ ref_name ?dep @ ''/BUILD'', ?content)]"
    by blast
  then have written: "map fst (saved (snd (host_loop ?e ''/g'' [?dep] [] ?w))) = [''/g/zlib/BUILD'']"
    by simp
  from h1 h2 paths files clean under written show ?thesis
    by blast
qed

subsection \<open>Dependencies that are skipped, dependencies that are editable\<close>

lemma host_loop_append:
  "host_loop env gf (xs @ ys) lr w =
     (case host_loop env gf xs lr w of
        (Inl e, w') \<Rightarrow> (Inl e, w')
      | (Inr lr', w') \<Rightarrow> host_loop env gf ys lr' w')"
proof (induction xs arbitrary: lr w)
  case Nil
  show ?case by simp
next
  case (Cons d xs)
  show ?case
    by (simp add: Cons.IH get_dependency_buildfile_content_eq save_dependency_buildfile_eq
        split: sum.splits option.splits)
qed

lemma no_libs_no_includedirs:
  "libs (cpp_info dep) = [] \<Longrightarrow> includedirs (cpp_info dep) = [] \<Longrightarrow>
     get_dependency_buildfile_content env dep w = (Inr None, w)"
  by (simp add: get_dependency_buildfile_content_def get_dependency_buildfile_context_def)

lemma generate_host_cong:
  assumes "\<And>lr w. host_loop env (generators_folder cf) hs lr w =
             host_loop env (generators_folder cf) hs' lr w"
  shows "generate env (cf\<lparr>host := hs\<rparr>) w = generate env (cf\<lparr>host := hs'\<rparr>) w"
proof -
  obtain r1 w1 where b: "build_loop (generators_folder cf) (direct_build cf) [] w = (r1, w1)"
    by (cases "build_loop (generators_folder cf) (direct_build cf) [] w")
  show ?thesis
    by (cases r1) (simp_all add: generate_def Let_def b assms split: prod.splits sum.splits)
qed

text \<open>
  Claim C9. A host dependency whose aggregated \<^verbatim>\<open>cpp_info\<close> has neither libs nor
  includedirs gets no content, and the loop goes on without a write, a snippet, a warning or
  an error: \<^verbatim>\<open>generate\<close> does on the graph what it does on the graph without that
  dependency.
\<close>

theorem dependency_without_libs_and_includedirs_is_skipped:
  assumes "libs (cpp_info dep) = []" and "includedirs (cpp_info dep) = []"
  shows "get_dependency_buildfile_content env dep w = (Inr None, w) \<and>
         host_loop env gf (dep # rest) lr w = host_loop env gf rest lr w \<and>
         generate env (cf\<lparr>host := pre @ dep # rest\<rparr>) w = generate env (cf\<lparr>host := pre @ rest\<rparr>) w"
proof -
  have skip: "host_loop env gf (dep # rest) lr w = host_loop env gf rest lr w" for gf lr w
    using assms by (simp add: no_libs_no_includedirs)
  have "host_loop env gf (pre @ dep # rest) lr w = host_loop env gf (pre @ rest) lr w" for gf lr w
  proof -
    obtain r w1 where p: "host_loop env gf pre lr w = (r, w1)"
      by (cases "host_loop env gf pre lr w")
    show ?thesis
      by (cases r) (simp_all add: host_loop_append[of env gf pre] p skip del: host_loop.simps)
  qed
  then have "generate env (cf\<lparr>host := pre @ dep # rest\<rparr>) w =
             generate env (cf\<lparr>host := pre @ rest\<rparr>) w"
    by (rule generate_host_cong)
  with assms skip show ?thesis
    by (simp add: no_libs_no_includedirs)
qed

theorem dependency_without_libs_and_includedirs_is_skipped_witness:
  "libs (cpp_info \<lparr>ref_name = ''meta'', package_folder = None,
           cpp_info = \<lparr>includedirs = [], libdirs = [''/p/meta/lib''], libs = [],
                       cpp_defines = [''META=1''], system_libs = [''m'']\<rparr>,
           dependencies = [], shared = False\<rparr>) = [] \<and>
   includedirs (cpp_info \<lparr>ref_name = ''meta'', package_folder = None,
           cpp_info = \<lparr>includedirs = [], libdirs = [''/p/meta/lib''], libs = [],
                       cpp_defines = [''META=1''], system_libs = [''m'']\<rparr>,
           dependencies = [], shared = False\<rparr>) = [] \<and>
   generate (posix_env ''Linux'' [])
     (\<lparr>generators_folder = ''/g'', direct_build = [], host = []\<rparr>
        \<lparr>host := [] @ \<lparr>ref_name = ''meta'', package_folder = None,
           cpp_info = \<lparr>includedirs = [], libdirs = [''/p/meta/lib''], libs = [],
                       cpp_defines = [''META=1''], system_libs = [''m'']\<rparr>,
           dependencies = [], shared = False\<rparr> # []\<rparr>)
     \<lparr>saved = [], warned = []\<rparr> =
     (Inr (),
      \<lparr>saved = [(''/g/BUILD'', []),
                (''/g/dependencies.bzl'', ''\<newline>def load_conan_dependencies():\<newline>        pass\<newline>'')],
       warned = []\<rparr>)"
proof -
  let ?dep = "\<lparr>ref_name = ''meta'', package_folder = None,
           cpp_info = \<lparr>includedirs = [], libdirs = [''/p/meta/lib''], libs = [],
                       cpp_defines = [''META=1''], system_libs = [''m'']\<rparr>,
           dependencies = [], shared = False\<rparr>"
  let ?cf = "\<lparr>generators_folder = ''/g'', direct_build = [], host = []\<rparr>"
  let ?w = "\<lparr>saved = [], warned = []\<rparr>"
  have h1: "libs (cpp_info ?dep) = []" and h2: "includedirs (cpp_info ?dep) = []"
    by simp_all
  have g: "generate (posix_env ''Linux'' []) (?cf\<lparr>host := [] @ []\<rparr>) ?w =
     (Inr (),
      \<lparr>saved = [(''/g/BUILD'', []),
                (''/g/dependencies.bzl'', ''\<newline>def load_conan_dependencies():\<newline>        pass\<newline>'')],
       warned = []\<rparr>)"
    by code_simp
  from dependency_without_libs_and_includedirs_is_skipped[OF h1 h2,
      where env = "posix_env ''Linux'' []" and w = ?w and cf = ?cf and pre = "[]" and rest = "[]"]
  have "generate (posix_env ''Linux'' []) (?cf\<lparr>host := [] @ ?dep # []\<rparr>) ?w =
     (Inr (),
      \<lparr>saved = [(''/g/BUILD'', []),
                (''/g/dependencies.bzl'', ''\<newline>def load_conan_dependencies():\<newline>        pass\<newline>'')],
       warned = []\<rparr>)"
    by (simp only: g)
  with h1 h2 show ?thesis by blast
qed

lemma has_buildfile_content:
  "has_buildfile env dep \<Longrightarrow>
     \<exists>content. buildfile_content_of env dep = Inr (Some content) \<and> content \<noteq> [] \<and>
       host_buildfile env dep = content"
  by (auto simp add: has_buildfile_def host_buildfile_def split: sum.splits option.splits)

lemma host_loop_editable:
  assumes "package_folder dep = None" and "has_buildfile env dep"
  shows "host_loop env gf (dep # rest) lr w =
           (Inl (ConanException ''BazelDeps doesn't support editable packages''),
            w\<lparr>warned := warned w @ buildfile_warnings_of env dep,
              saved := saved w @ [(dependency_buildfile_name gf dep, host_buildfile env dep)]\<rparr>)"
proof -
  obtain content where "buildfile_content_of env dep = Inr (Some content)" "content \<noteq> []"
    "host_buildfile env dep = content"
    using has_buildfile_content[OF assms(2)] by blast
  then show ?thesis
    using assms(1)
    by (simp add: get_dependency_buildfile_content_eq save_dependency_buildfile_eq
        create_new_local_repository_def)
qed

text \<open>
  Claim C2. For a host dependency that has content and whose package folder is
  \<^verbatim>\<open>None\<close>, \<^verbatim>\<open>_create_new_local_repository\<close> raises the \<^verbatim>\<open>ConanException\<close>; the loop that
  reaches the dependency stops with that exception right after the dependency's BUILD file
  was saved, and no snippet is made. So \<^verbatim>\<open>generate\<close> raises on every graph with such a
  host dependency, and the exception is this one whenever the dependencies before it
  are generated without an error.
\<close>

theorem editable_host_dependency_raises:
  assumes "package_folder dep = None" and "has_buildfile env dep"
  shows "create_new_local_repository dep filename =
           Inl (ConanException ''BazelDeps doesn't support editable packages'') \<and>
         fst (host_loop env gf (dep # rest) lr w) =
           Inl (ConanException ''BazelDeps doesn't support editable packages'') \<and>
         saved (snd (host_loop env gf (dep # rest) lr w)) =
           saved w @ [(dependency_buildfile_name gf dep, host_buildfile env dep)] \<and>
         (\<exists>e. fst (generate env (cf\<lparr>host := pre @ dep # rest\<rparr>) w) = Inl e) \<and>
         (fst (generate env (cf\<lparr>host := pre\<rparr>) w) = Inr () \<longrightarrow>
            fst (generate env (cf\<lparr>host := pre @ dep # rest\<rparr>) w) =
              Inl (ConanException ''BazelDeps doesn't support editable packages''))"
proof -
  let ?gf = "generators_folder cf"
  let ?exn = "ConanException ''BazelDeps doesn't support editable packages''"
  note step = host_loop_editable[OF assms]
  have c: "create_new_local_repository dep filename = Inl ?exn"
    using assms(1) by (simp add: create_new_local_repository_def)
  obtain r1 w1 where b: "build_loop ?gf (direct_build cf) [] w = (r1, w1)"
    by (cases "build_loop ?gf (direct_build cf) [] w")
  have g: "(\<exists>e. fst (generate env (cf\<lparr>host := pre @ dep # rest\<rparr>) w) = Inl e) \<and>
           (fst (generate env (cf\<lparr>host := pre\<rparr>) w) = Inr () \<longrightarrow>
            fst (generate env (cf\<lparr>host := pre @ dep # rest\<rparr>) w) = Inl ?exn)"
  proof (cases r1)
    case (Inl e)
    then show ?thesis using b by (simp add: generate_def Let_def)
  next
    case (Inr built)
    obtain r2 w2 where h: "host_loop env ?gf pre built w1 = (r2, w2)"
      by (cases "host_loop env ?gf pre built w1")
    show ?thesis
    proof (cases r2)
      case (Inl e)
      then show ?thesis using b Inr h
        by (simp add: generate_def Let_def host_loop_append[of env ?gf pre] del: host_loop.simps)
    next
      case lr: (Inr lr')
      then show ?thesis using b Inr h step[of ?gf rest lr' w2]
        by (simp add: generate_def Let_def host_loop_append[of env ?gf pre] del: host_loop.simps)
    qed
  qed
  from c step[of gf rest lr w] g show ?thesis by simp
qed

theorem editable_host_dependency_raises_witness:
  "package_folder \<lparr>ref_name = ''tool'', package_folder = None,
      cpp_info = \<lparr>includedirs = [], libdirs = [], libs = [''t''], cpp_defines = [], system_libs = []\<rparr>,
      dependencies = [], shared = False\<rparr> = None \<and>
   has_buildfile (posix_env ''Linux'' [])
     \<lparr>ref_name = ''tool'', package_folder = None,
      cpp_info = \<lparr>includedirs = [], libdirs = [], libs = [''t''], cpp_defines = [], system_libs = []\<rparr>,
      dependencies = [], shared = False\<rparr> \<and>
   fst (generate (posix_env ''Linux'' [])
     (\<lparr>generators_folder = ''/g'', direct_build = [], host = []\<rparr>
        \<lparr>host := [] @ \<lparr>ref_name = ''tool'', package_folder = None,
      cpp_info = \<lparr>includedirs = [], libdirs = [], libs = [''t''], cpp_defines = [], system_libs = []\<rparr>,
      dependencies = [], shared = False\<rparr> # []\<rparr>)
     \<lparr>saved = [], warned = []\<rparr>) =
     Inl (ConanException ''BazelDeps doesn't support editable packages'')"
proof -
  let ?dep = "\<lparr>ref_name = ''tool'', package_folder = None,
      cpp_info = \<lparr>includedirs = [], libdirs = [], libs = [''t''], cpp_defines = [], system_libs = []\<rparr>,
      dependencies = [], shared = False\<rparr>"
  let ?e = "posix_env ''Linux'' []"
  let ?cf = "\<lparr>generators_folder = ''/g'', direct_build = [], host = []\<rparr>"
  let ?w = "\<lparr>saved = [], warned = []\<rparr>"
  have h1: "package_folder ?dep = None"
    by simp
  have h2: "has_buildfile ?e ?dep"
    by code_simp
  have g: "fst (generate ?e (?cf\<lparr>host := []\<rparr>) ?w) = Inr ()"
    by code_simp
  from editable_host_dependency_raises[OF h1 h2,
      where w = ?w and cf = ?cf and pre = "[]" and rest = "[]"] g
  have "fst (generate ?e (?cf\<lparr>host := [] @ ?dep # []\<rparr>) ?w) =
          Inl (ConanException ''BazelDeps doesn't support editable packages'')"
    by blast
  with h1 h2 show ?thesis by blast
qed

subsection \<open>Determinism\<close>

lemma scan_files_env:
  "path_join e1 = path_join e2 \<Longrightarrow> path_splitext e1 = path_splitext e2 \<Longrightarrow>
     scan_files e1 libdir lib files = scan_files e2 libdir lib files"
  by (induction files) (simp_all add: lib_name_def)

lemma get_lib_file_paths_env:
  assumes "same_platform e1 e2" and "\<forall>dir\<in>set dirs. same_listing e1 e2 dir"
  shows "get_lib_file_paths e1 dirs lib w = get_lib_file_paths e2 dirs lib w"
  using assms(2)
proof (induction dirs arbitrary: w)
  case Nil
  show ?case by simp
next
  case (Cons d dirs)
  have s: "scan_files e1 d lib files = scan_files e2 d lib files" for files
    using assms(1) by (intro scan_files_env) (simp_all add: same_platform_def)
  from Cons.prems have ex: "path_exists e1 d = path_exists e2 d"
    and ls: "path_exists e2 d \<Longrightarrow> listdir e1 d = listdir e2 d"
    and rest: "\<forall>dir\<in>set dirs. same_listing e1 e2 dir"
    by (simp_all add: same_listing_def)
  note ih = Cons.IH[OF rest]
  show ?case
  proof (cases "path_exists e2 d")
    case False
    then show ?thesis by (simp add: ex ih)
  next
    case True
    then show ?thesis
      by (simp add: ex ls[OF True] s ih split: sum.splits option.splits)
  qed
qed

lemma libs_loop_env:
  assumes "same_platform e1 e2" and "\<forall>dir\<in>set dirs. same_listing e1 e2 dir"
  shows "libs_loop e1 dirs pf ls acc w = libs_loop e2 dirs pf ls acc w"
proof (induction ls arbitrary: acc w)
  case Nil
  show ?case by simp
next
  case (Cons l ls)
  show ?case
    by (simp add: get_lib_file_paths_env[OF assms] Cons.IH split: prod.splits sum.splits option.splits)
qed

lemma get_dependency_buildfile_content_env:
  assumes "same_platform e1 e2" and "\<forall>dir\<in>set (libdirs (cpp_info dep)). same_listing e1 e2 dir"
  shows "get_dependency_buildfile_content e1 dep w = get_dependency_buildfile_content e2 dep w"
proof -
  have fl: "format_linkopt e1 = format_linkopt e2"
    using assms(1) by (auto simp add: same_platform_def format_linkopt_def)
  have ll: "libs_loop e1 (libdirs (cpp_info dep)) pf ls acc w =
            libs_loop e2 (libdirs (cpp_info dep)) pf ls acc w" for pf ls acc w
    by (rule libs_loop_env[OF assms])
  have "get_dependency_buildfile_context e1 dep w = get_dependency_buildfile_context e2 dep w"
    unfolding get_dependency_buildfile_context_def Let_def ll fl by (rule refl)
  then show ?thesis
    by (simp add: get_dependency_buildfile_content_def)
qed

lemma host_loop_env:
  assumes "same_platform e1 e2"
  shows "\<forall>dep\<in>set deps. \<forall>dir\<in>set (libdirs (cpp_info dep)). same_listing e1 e2 dir \<Longrightarrow>
           host_loop e1 gf deps lr w = host_loop e2 gf deps lr w"
proof (induction deps arbitrary: lr w)
  case Nil
  show ?case by simp
next
  case (Cons d deps)
  then have c: "get_dependency_buildfile_content e1 d w = get_dependency_buildfile_content e2 d w" for w
    using get_dependency_buildfile_content_env[OF assms] by simp
  from Cons have ih: "host_loop e1 gf deps lr w = host_loop e2 gf deps lr w" for lr w
    by simp
  show ?case
    by (simp add: c ih split: prod.splits sum.splits option.splits)
qed

text \<open>
  Claim C6. Two runs of \<^verbatim>\<open>generate\<close> on the same graph and the same platform, with
  the same listing of every library directory of the host dependencies, return the same
  result, save the same files with the same contents in the same order and emit the same
  warnings, whatever else differs on disk.
\<close>

theorem generate_is_deterministic:
  assumes "same_platform e1 e2"
    and "\<forall>dep\<in>set (host cf). \<forall>dir\<in>set (libdirs (cpp_info dep)). same_listing e1 e2 dir"
  shows "generate e1 cf w = generate e2 cf w"
proof -
  have h: "host_loop e1 gf (host cf) lr w = host_loop e2 gf (host cf) lr w" for gf lr w
    using host_loop_env[OF assms(1) assms(2)] .
  show ?thesis
    unfolding generate_def Let_def h by (rule refl)
qed

theorem generate_is_deterministic_witness:
  "same_platform (posix_env ''Linux'' [(''/p/lib'', [''libz.a''])])
     (posix_env ''Linux'' [(''/p/lib'', [''libz.a'']), (''/p/lib64'', [''libz.so''])]) \<and>
   same_listing (posix_env ''Linux'' [(''/p/lib'', [''libz.a''])])
     (posix_env ''Linux'' [(''/p/lib'', [''libz.a'']), (''/p/lib64'', [''libz.so''])]) ''/p/lib'' \<and>
   \<not> same_listing (posix_env ''Linux'' [(''/p/lib'', [''libz.a''])])
     (posix_env ''Linux'' [(''/p/lib'', [''libz.a'']), (''/p/lib64'', [''libz.so''])]) ''/p/lib64'' \<and>
   generate (posix_env ''Linux'' [(''/p/lib'', [''libz.a''])])
     \<lparr>generators_folder = ''/g'', direct_build = [],
      host = [\<lparr>ref_name = ''zlib'', package_folder = Some ''/p'',
       cpp_info = \<lparr>includedirs = [], libdirs = [''/p/lib''], libs = [''z''],
                   cpp_defines = [], system_libs = []\<rparr>,
       dependencies = [], shared = False\<rparr>]\<rparr>
     \<lparr>saved = [], warned = []\<rparr> =
   generate (posix_env ''Linux'' [(''/p/lib'', [''libz.a'']), (''/p/lib64'', [''libz.so''])])
     \<lparr>generators_folder = ''/g'', direct_build = [],
      host = [\<lparr>ref_name = ''zlib'', package_folder = Some ''/p'',
       cpp_info = \<lparr>includedirs = [], libdirs = [''/p/lib''], libs = [''z''],
                   cpp_defines = [], system_libs = []\<rparr>,
       dependencies = [], shared = False\<rparr>]\<rparr>
     \<lparr>saved = [], warned = []\<rparr>"
proof -
  let ?e1 = "posix_env ''Linux'' [(''/p/lib'', [''libz.a''])]"
  let ?e2 = "posix_env ''Linux'' [(''/p/lib'', [''libz.a'']), (''/p/lib64'', [''libz.so''])]"
  let ?cf = "\<lparr>generators_folder = ''/g'', direct_build = [],
      host = [\<lparr>ref_name = ''zlib'', package_folder = Some ''/p'',
       cpp_info = \<lparr>includedirs = [], libdirs = [''/p/lib''], libs = [''z''],
                   cpp_defines = [], system_libs = []\<rparr>,
       dependencies = [], shared = False\<rparr>]\<rparr>"
  have h1: "same_platform ?e1 ?e2"
    by (simp add: same_platform_def posix_env_def)
  have l: "same_listing ?e1 ?e2 ''/p/lib''"
    by (simp add: same_listing_def posix_env_def)
  have n: "\<not> same_listing ?e1 ?e2 ''/p/lib64''"
    by (simp add: same_listing_def posix_env_def)
  from l have h2: "\<forall>dep\<in>set (host ?cf). \<forall>dir\<in>set (libdirs (cpp_info dep)). same_listing ?e1 ?e2 dir"
    by simp
  from generate_is_deterministic[OF h1 h2, of "\<lparr>saved = [], warned = []\<rparr>"] h1 l n
  show ?thesis by blast
qed

subsection \<open>What a completed run has checked\<close>

lemma render_nonempty: "render ctx \<noteq> []"
  by (simp add: render_def)

lemma buildfile_content_of_None:
  "buildfile_content_of env dep = Inr None \<longleftrightarrow>
     libs (cpp_info dep) = [] \<and> includedirs (cpp_info dep) = []"
proof (cases "libs (cpp_info dep) = [] \<and> includedirs (cpp_info dep) = []")
  case True
  then show ?thesis
    by (simp add: buildfile_content_of_def no_libs_no_includedirs)
next
  case False
  then have cond: "(libs (cpp_info dep) = [] \<and> includedirs (cpp_info dep) = []) = False"
    by blast
  have "fst (get_dependency_buildfile_context env dep w) \<noteq> Inr None" for w
    unfolding get_dependency_buildfile_context_def Let_def cond
    by (simp split: sum.splits prod.splits)
  moreover obtain r w1 where c: "get_dependency_buildfile_context env dep no_effects = (r, w1)"
    by (cases "get_dependency_buildfile_context env dep no_effects")
  ultimately have r: "r \<noteq> Inr None"
    by (metis fst_conv)
  have "buildfile_content_of env dep \<noteq> Inr None"
  proof (cases r)
    case (Inl e)
    then show ?thesis
      by (simp add: buildfile_content_of_def get_dependency_buildfile_content_def c)
  next
    case (Inr x)
    with r obtain ctx where "x = Some ctx"
      by (cases x) simp_all
    with Inr show ?thesis
      by (simp add: buildfile_content_of_def get_dependency_buildfile_content_def c)
  qed
  with False show ?thesis by blast
qed

lemma buildfile_content_of_Some:
  "buildfile_content_of env dep = Inr (Some content) \<Longrightarrow> content \<noteq> []"
  using render_nonempty
  by (auto simp add: buildfile_content_of_def get_dependency_buildfile_content_def
      split: sum.splits prod.splits option.splits)

lemma has_buildfile_iff:
  "has_buildfile env dep \<longleftrightarrow> (\<exists>content. buildfile_content_of env dep = Inr (Some content))"
  using buildfile_content_of_Some[of env dep]
  by (auto simp add: has_buildfile_def split: sum.splits option.splits)

lemma build_loop_folders:
  "build_loop gf deps lr w = (Inr lr', w') \<Longrightarrow> \<forall>d\<in>set deps. package_folder d \<noteq> None"
proof (induction deps arbitrary: lr w)
  case Nil
  show ?case by simp
next
  case (Cons d deps)
  show ?case
  proof (cases "package_folder d")
    case None
    with Cons.prems show ?thesis
      by (simp add: save_dependency_buildfile_eq create_new_local_repository_def)
  next
    case (Some folder)
    with Cons.prems Cons.IH show ?thesis
      by (auto simp add: save_dependency_buildfile_eq create_new_local_repository_def)
  qed
qed

lemma host_loop_folders:
  "host_loop env gf deps lr w = (Inr lr', w') \<Longrightarrow>
     \<forall>d\<in>set deps. (\<exists>c. buildfile_content_of env d = Inr c) \<and>
                   (has_buildfile env d \<longrightarrow> package_folder d \<noteq> None)"
proof (induction deps arbitrary: lr w)
  case Nil
  show ?case by simp
next
  case (Cons d deps)
  from Cons.prems obtain lr1 w1 where
    one: "host_loop env gf [d] lr w = (Inr lr1, w1)" and
    more: "host_loop env gf deps lr1 w1 = (Inr lr', w')"
    using host_loop_append[of env gf "[d]" deps lr w]
    by (auto simp del: host_loop.simps split: prod.splits sum.splits)
  have "(\<exists>c. buildfile_content_of env d = Inr c) \<and>
        (has_buildfile env d \<longrightarrow> package_folder d \<noteq> None)"
  proof (cases "has_buildfile env d")
    case True
    show ?thesis
    proof (cases "package_folder d")
      case None
      with one host_loop_editable[OF None True, of gf "[]" lr w] show ?thesis by simp
    next
      case (Some folder)
      with True show ?thesis by (auto simp add: has_buildfile_iff)
    qed
  next
    case False
    with one show ?thesis
      by (cases "buildfile_content_of env d")
         (simp_all add: get_dependency_buildfile_content_eq)
  qed
  with Cons.IH[OF more] show ?case by simp
qed

lemma generate_folders:
  assumes "generate env cf w = (Inr u, w')"
  shows "(\<forall>d\<in>set (direct_build cf). package_folder d \<noteq> None) \<and>
         (\<forall>d\<in>set (host cf). (\<exists>c. buildfile_content_of env d = Inr c) \<and>
            (has_buildfile env d \<longrightarrow> package_folder d \<noteq> None))"
proof -
  let ?gf = "generators_folder cf"
  obtain r1 w1 where b: "build_loop ?gf (direct_build cf) [] w = (r1, w1)"
    by (cases "build_loop ?gf (direct_build cf) [] w")
  show ?thesis
  proof (cases r1)
    case (Inl e)
    with assms b show ?thesis by (simp add: generate_def Let_def)
  next
    case (Inr built)
    obtain r2 w2 where h: "host_loop env ?gf (host cf) built w1 = (r2, w2)"
      by (cases "host_loop env ?gf (host cf) built w1")
    show ?thesis
    proof (cases r2)
      case (Inl e)
      with assms b Inr h show ?thesis by (simp add: generate_def Let_def)
    next
      case lr: (Inr lr)
      from build_loop_folders[OF b[unfolded Inr]] host_loop_folders[OF h[unfolded lr]]
      show ?thesis by blast
    qed
  qed
qed

text \<open>
  Conversely these checks are all a run needs to complete: \<^verbatim>\<open>generate\<close> returns exactly
  when every direct build dependency has a package folder, no host dependency raises while
  its content is made, and every host dependency with content has a package folder.
\<close>

lemma build_loop_completes:
  "\<forall>d\<in>set deps. package_folder d \<noteq> None \<Longrightarrow>
     \<exists>lr' w'. build_loop gf deps lr w = (Inr lr', w')"
proof (induction deps arbitrary: lr w)
  case Nil
  show ?case by simp
next
  case (Cons d deps)
  then obtain folder where f: "package_folder d = Some folder"
    by auto
  from Cons have "\<exists>lr' w'. build_loop gf deps lr1 w1 = (Inr lr', w')" for lr1 w1
    by simp
  then show ?case
    by (simp add: save_dependency_buildfile_eq create_new_local_repository_def f)
qed

lemma host_loop_completes:
  "\<forall>d\<in>set deps. (\<exists>c. buildfile_content_of env d = Inr c) \<and>
                 (has_buildfile env d \<longrightarrow> package_folder d \<noteq> None) \<Longrightarrow>
     \<exists>lr' w'. host_loop env gf deps lr w = (Inr lr', w')"
proof (induction deps arbitrary: lr w)
  case Nil
  show ?case by simp
next
  case (Cons d deps)
  from Cons.prems obtain c where c: "buildfile_content_of env d = Inr c"
    by auto
  from Cons have ih: "\<exists>lr' w'. host_loop env gf deps lr1 w1 = (Inr lr', w')" for lr1 w1
    by simp
  show ?case
  proof (cases "has_buildfile env d")
    case False
    with c ih show ?thesis
      by (cases c) (simp_all add: get_dependency_buildfile_content_eq has_buildfile_def)
  next
    case True
    with Cons.prems obtain folder where f: "package_folder d = Some folder"
      by auto
    from True c obtain content where "c = Some content" "content \<noteq> []"
      by (cases c) (simp_all add: has_buildfile_def)
    with c f ih show ?thesis
      by (simp add: get_dependency_buildfile_content_eq save_dependency_buildfile_eq
          create_new_local_repository_def)
  qed
qed

lemma generate_completes_iff:
  "(\<exists>w'. generate env cf w = (Inr (), w')) \<longleftrightarrow>
     (\<forall>d\<in>set (direct_build cf). package_folder d \<noteq> None) \<and>
     (\<forall>d\<in>set (host cf). (\<exists>c. buildfile_content_of env d = Inr c) \<and>
        (has_buildfile env d \<longrightarrow> package_folder d \<noteq> None))"
proof
  assume "\<exists>w'. generate env cf w = (Inr (), w')"
  then show "(\<forall>d\<in>set (direct_build cf). package_folder d \<noteq> None) \<and>
     (\<forall>d\<in>set (host cf). (\<exists>c. buildfile_content_of env d = Inr c) \<and>
        (has_buildfile env d \<longrightarrow> package_folder d \<noteq> None))"
    using generate_folders by blast
next
  assume a: "(\<forall>d\<in>set (direct_build cf). package_folder d \<noteq> None) \<and>
     (\<forall>d\<in>set (host cf). (\<exists>c. buildfile_content_of env d = Inr c) \<and>
        (has_buildfile env d \<longrightarrow> package_folder d \<noteq> None))"
  then obtain built w1 where b: "build_loop (generators_folder cf) (direct_build cf) [] w = (Inr built, w1)"
    using build_loop_completes[of "direct_build cf" "generators_folder cf" "[]" w] by blast
  from a obtain lr w2 where h: "host_loop env (generators_folder cf) (host cf) built w1 = (Inr lr, w2)"
    using host_loop_completes[of "host cf" env "generators_folder cf" built w1] by blast
  show "\<exists>w'. generate env cf w = (Inr (), w')"
    by (simp add: generate_def Let_def b h)
qed

lemma local_repository_of_Some:
  \<open>package_folder dep = Some folder \<Longrightarrow>
     local_repository_of gf dep =
       ''\<newline>native.new_local_repository(\<newline>    name="'' @ ref_name dep @ ''",\<newline>'' @
       ''    path="'' @ replace backslash ''/'' folder @ ''",\<newline>'' @
       ''    build_file="'' @ replace backslash ''/'' (gf @ ''/'' @ ref_name dep @ ''/BUILD'') @
       ''",\<newline>)\<newline>''\<close>
  by (simp add: local_repository_of_def create_new_local_repository_def dependency_buildfile_name_def)

lemma splitlines_keepends_concat: "concat (splitlines_keepends cur s) = cur @ s"
  by (induction cur s rule: splitlines_keepends.induct) auto

lemma buildfile_name_inj:
  "(dependency_buildfile_name gf d1 = dependency_buildfile_name gf d2) = (ref_name d1 = ref_name d2)"
  by (simp add: dependency_buildfile_name_def)

lemma buildfile_name_not_aggregate:
  "dependency_buildfile_name gf d \<noteq> gf @ ''/BUILD'' \<and>
   dependency_buildfile_name gf d \<noteq> gf @ ''/dependencies.bzl''"
proof -
  have "length (ref_name d @ ''/BUILD'') \<noteq> length ''BUILD''"
    by simp
  then have a: "ref_name d @ ''/BUILD'' \<noteq> ''BUILD''"
    by metis
  have "last (ref_name d @ ''/BUILD'') \<noteq> last ''dependencies.bzl''"
    by simp
  then have b: "ref_name d @ ''/BUILD'' \<noteq> ''dependencies.bzl''"
    by metis
  from a b show ?thesis
    by (simp add: dependency_buildfile_name_def)
qed

subsection \<open>The files of a completed run\<close>

text \<open>
  Claim C3 says that every dependency gets a BUILD file. A host dependency with neither
  libs nor includedirs gets none: on this graph \<^verbatim>\<open>generate\<close> completes and saves the two
  aggregate files only, nothing at \<^verbatim>\<open>/g/meta/BUILD\<close>.
\<close>

theorem every_dependency_gets_a_buildfile_counterexample:
  "\<lparr>ref_name = ''meta'', package_folder = Some ''/p/meta'',
     cpp_info = \<lparr>includedirs = [], libdirs = [], libs = [], cpp_defines = [], system_libs = []\<rparr>,
     dependencies = [''zlib''], shared = False\<rparr>
     \<in> set (host \<lparr>generators_folder = ''/g'', direct_build = [],
                   host = [\<lparr>ref_name = ''meta'', package_folder = Some ''/p/meta'',
                     cpp_info = \<lparr>includedirs = [], libdirs = [], libs = [], cpp_defines = [],
                                 system_libs = []\<rparr>,
                     dependencies = [''zlib''], shared = False\<rparr>]\<rparr>) \<and>
   generate (posix_env ''Linux'' [])
     \<lparr>generators_folder = ''/g'', direct_build = [],
      host = [\<lparr>ref_name = ''meta'', package_folder = Some ''/p/meta'',
        cpp_info = \<lparr>includedirs = [], libdirs = [], libs = [], cpp_defines = [], system_libs = []\<rparr>,
        dependencies = [''zlib''], shared = False\<rparr>]\<rparr>
     \<lparr>saved = [], warned = []\<rparr> =
     (Inr (),
      \<lparr>saved = [(''/g/BUILD'', []),
                (''/g/dependencies.bzl'', ''\<newline>def load_conan_dependencies():\<newline>        pass\<newline>'')],
       warned = []\<rparr>) \<and>
   ''/g/meta/BUILD'' \<notin> set (map fst
      [(''/g/BUILD'', []),
       (''/g/dependencies.bzl'', ''\<newline>def load_conan_dependencies():\<newline>        pass\<newline>'')])"
  by code_simp

text \<open>
  Claim C3, amended. When \<^verbatim>\<open>generate\<close> completes, it has saved one BUILD file for each
  direct build dependency and for each host dependency that has libs or includedirs (the
  other host dependencies are skipped), in that order and before the two aggregate files,
  each at \<^verbatim>\<open><generators_folder>/<ref name>/BUILD\<close>; the path depends on the dependency
  through its name alone, and two dependencies share a path exactly when they share a name.
\<close>

theorem per_dependency_buildfiles:
  assumes "generate env cf w = (Inr (), w')"
  shows "(\<exists>main. saved w' = saved w @
            map (\<lambda>d. (generators_folder cf @ ''/'' @ ref_name d @ ''/BUILD'',
                       get_build_dependency_buildfile_content d)) (direct_build cf) @
            map (\<lambda>d. (generators_folder cf @ ''/'' @ ref_name d @ ''/BUILD'', host_buildfile env d))
              (filter (has_buildfile env) (host cf)) @
            [(generators_folder cf @ ''/BUILD'', []),
             (generators_folder cf @ ''/dependencies.bzl'', main)]) \<and>
         (\<forall>d\<in>set (host cf).
            has_buildfile env d \<longleftrightarrow> libs (cpp_info d) \<noteq> [] \<or> includedirs (cpp_info d) \<noteq> []) \<and>
         ((gf @ ''/'' @ ref_name d1 @ ''/BUILD'' = gf @ ''/'' @ ref_name d2 @ ''/BUILD'') =
            (ref_name d1 = ref_name d2))"
proof -
  from generate_Inr[OF assms] have s: "\<exists>main. saved w' = saved w @
            map (\<lambda>d. (generators_folder cf @ ''/'' @ ref_name d @ ''/BUILD'',
                       get_build_dependency_buildfile_content d)) (direct_build cf) @
            map (\<lambda>d. (generators_folder cf @ ''/'' @ ref_name d @ ''/BUILD'', host_buildfile env d))
              (filter (has_buildfile env) (host cf)) @
            [(generators_folder cf @ ''/BUILD'', []),
             (generators_folder cf @ ''/dependencies.bzl'', main)]"
    by (simp add: dependency_buildfile_name_def)
  have h: "has_buildfile env d \<longleftrightarrow> libs (cpp_info d) \<noteq> [] \<or> includedirs (cpp_info d) \<noteq> []"
    if "d \<in> set (host cf)" for d
  proof -
    from generate_folders[OF assms] that obtain c where c: "buildfile_content_of env d = Inr c"
      by blast
    show ?thesis
      using buildfile_content_of_None[of env d] has_buildfile_iff[of env d] c
      by (cases c) auto
  qed
  from s h show ?thesis by simp
qed

theorem per_dependency_buildfiles_witness:
  "generate (posix_env ''Linux'' [(''/p/zlib/lib'', [''libz.a''])])
     \<lparr>generators_folder = ''/g'',
      direct_build = [\<lparr>ref_name = ''cmake'', package_folder = Some ''/p/cmake'',
        cpp_info = \<lparr>includedirs = [], libdirs = [], libs = [], cpp_defines = [], system_libs = []\<rparr>,
        dependencies = [], shared = False\<rparr>],
      host = [\<lparr>ref_name = ''zlib'', package_folder = Some ''/p/zlib'',
        cpp_info = \<lparr>includedirs = [''/p/zlib/include''], libdirs = [''/p/zlib/lib''], libs = [''z''],
                    cpp_defines = [], system_libs = []\<rparr>,
        dependencies = [], shared = False\<rparr>,
       \<lparr>ref_name = ''meta'', package_folder = Some ''/p/meta'',
        cpp_info = \<lparr>includedirs = [], libdirs = [], libs = [], cpp_defines = [], system_libs = []\<rparr>,
        dependencies = [''zlib''], shared = False\<rparr>]\<rparr>
     \<lparr>saved = [], warned = []\<rparr> =
   (Inr (), snd (generate (posix_env ''Linux'' [(''/p/zlib/lib'', [''libz.a''])])
     \<lparr>generators_folder = ''/g'',
      direct_build = [\<lparr>ref_name = ''cmake'', package_folder = Some ''/p/cmake'',
        cpp_info = \<lparr>includedirs = [], libdirs = [], libs = [], cpp_defines = [], system_libs = []\<rparr>,
        dependencies = [], shared = False\<rparr>],
      host = [\<lparr>ref_name = ''zlib'', package_folder = Some ''/p/zlib'',
        cpp_info = \<lparr>includedirs = [''/p/zlib/include''], libdirs = [''/p/zlib/lib''], libs = [''z''],
                    cpp_defines = [], system_libs = []\<rparr>,
        dependencies = [], shared = False\<rparr>,
       \<lparr>ref_name = ''meta'', package_folder = Some ''/p/meta'',
        cpp_info = \<lparr>includedirs = [], libdirs = [], libs = [], cpp_defines = [], system_libs = []\<rparr>,
        dependencies = [''zlib''], shared = False\<rparr>]\<rparr>
     \<lparr>saved = [], warned = []\<rparr>)) \<and>
   map fst (saved (snd (generate (posix_env ''Linux'' [(''/p/zlib/lib'', [''libz.a''])])
     \<lparr>generators_folder = ''/g'',
      direct_build = [\<lparr>ref_name = ''cmake'', package_folder = Some ''/p/cmake'',
        cpp_info = \<lparr>includedirs = [], libdirs = [], libs = [], cpp_defines = [], system_libs = []\<rparr>,
        dependencies = [], shared = False\<rparr>],
      host = [\<lparr>ref_name = ''zlib'', package_folder = Some ''/p/zlib'',
        cpp_info = \<lparr>includedirs = [''/p/zlib/include''], libdirs = [''/p/zlib/lib''], libs = [''z''],
                    cpp_defines = [], system_libs = []\<rparr>,
        dependencies = [], shared = False\<rparr>,
       \<lparr>ref_name = ''meta'', package_folder = Some ''/p/meta'',
        cpp_info = \<lparr>includedirs = [], libdirs = [], libs = [], cpp_defines = [], system_libs = []\<rparr>,
        dependencies = [''zlib''], shared = False\<rparr>]\<rparr>
     \<lparr>saved = [], warned = []\<rparr>))) =
   [''/g/cmake/BUILD'', ''/g/zlib/BUILD'', ''/g/BUILD'', ''/g/dependencies.bzl'']"
proof -
  let ?e = "posix_env ''Linux'' [(''/p/zlib/lib'', [''libz.a''])]"
  let ?cmake = "\<lparr>ref_name = ''cmake'', package_folder = Some ''/p/cmake'',
        cpp_info = \<lparr>includedirs = [], libdirs = [], libs = [], cpp_defines = [], system_libs = []\<rparr>,
        dependencies = [], shared = False\<rparr>"
  let ?zlib = "\<lparr>ref_name = ''zlib'', package_folder = Some ''/p/zlib'',
        cpp_info = \<lparr>includedirs = [''/p/zlib/include''], libdirs = [''/p/zlib/lib''], libs = [''z''],
                    cpp_defines = [], system_libs = []\<rparr>,
        dependencies = [], shared = False\<rparr>"
  let ?meta = "\<lparr>ref_name = ''meta'', package_folder = Some ''/p/meta'',
        cpp_info = \<lparr>includedirs = [], libdirs = [], libs = [], cpp_defines = [], system_libs = []\<rparr>,
        dependencies = [''zlib''], shared = False\<rparr>"
  let ?cf = "\<lparr>generators_folder = ''/g'', direct_build = [?cmake], host = [?zlib, ?meta]\<rparr>"
  let ?w = "\<lparr>saved = [], warned = []\<rparr>"
  have "fst (generate ?e ?cf ?w) = Inr ()"
    by code_simp
  then have h: "generate ?e ?cf ?w = (Inr (), snd (generate ?e ?cf ?w))"
    by (simp add: prod_eq_iff)
  have f: "has_buildfile ?e ?zlib" "\<not> has_buildfile ?e ?meta"
    by code_simp+
  from per_dependency_buildfiles[OF h] obtain main where
    "saved (snd (generate ?e ?cf ?w)) = saved ?w @
       map (\<lambda>d. (generators_folder ?cf @ ''/'' @ ref_name d @ ''/BUILD'',
                  get_build_dependency_buildfile_content d)) (direct_build ?cf) @
       map (\<lambda>d. (generators_folder ?cf @ ''/'' @ ref_name d @ ''/BUILD'', host_buildfile ?e d))
         (filter (has_buildfile ?e) (host ?cf)) @
       [(generators_folder ?cf @ ''/BUILD'', []), (generators_folder ?cf @ ''/dependencies.bzl'', main)]"
    by blast
  then have "map fst (saved (snd (generate ?e ?cf ?w))) =
     [''/g/cmake/BUILD'', ''/g/zlib/BUILD'', ''/g/BUILD'', ''/g/dependencies.bzl'']"
    by (simp add: f)
  with h show ?thesis by blast
qed

text \<open>
  Claim C4. A run of \<^verbatim>\<open>generate\<close> that completes has gone through the direct build
  dependencies and then through the host dependencies, each once and in the order of the
  graph: the BUILD files are saved in that order, the warnings are those of the host
  dependencies in that order, and the entry-point file, saved last, is made from the
  snippets in that same order (its lines, put together again, are the snippets separated
  by newlines).
\<close>

theorem snippets_follow_visit_order:
  assumes "generate env cf w = (Inr (), w')"
  shows "map fst (saved w') = map fst (saved w) @
           map (dependency_buildfile_name (generators_folder cf)) (direct_build cf) @
           map (dependency_buildfile_name (generators_folder cf)) (filter (has_buildfile env) (host cf)) @
           [generators_folder cf @ ''/BUILD'', generators_folder cf @ ''/dependencies.bzl''] \<and>
         warned w' = warned w @ concat (map (buildfile_warnings_of env) (host cf)) \<and>
         (let snippets = map (local_repository_of (generators_folder cf)) (direct_build cf) @
                         map (local_repository_of (generators_folder cf))
                           (filter (has_buildfile env) (host cf))
          in snd (last (saved w')) = get_main_buildfile_content snippets \<and>
             (snippets \<noteq> [] \<longrightarrow>
                (\<exists>lines. get_main_buildfile_content snippets =
                   ''\<newline>def load_conan_dependencies():\<newline>    '' @ join ''    '' lines @ ''\<newline>'' \<and>
                   concat lines = join ''\<newline>'' snippets)))"
proof -
  have "\<exists>lines. get_main_buildfile_content snippets =
          ''\<newline>def load_conan_dependencies():\<newline>    '' @ join ''    '' lines @ ''\<newline>'' \<and>
          concat lines = join ''\<newline>'' snippets" if "snippets \<noteq> []" for snippets
    using that splitlines_keepends_concat[of "[]" "join ''\<newline>'' snippets"]
    by (auto simp add: get_main_buildfile_content_def)
  with generate_Inr[OF assms] show ?thesis
    by (simp add: Let_def comp_def)
qed

theorem snippets_follow_visit_order_witness:
  "generate (posix_env ''Linux'' [(''/p/zlib/lib'', [''libz.a''])])
     \<lparr>generators_folder = ''/g'',
      direct_build = [\<lparr>ref_name = ''cmake'', package_folder = Some ''/p/cmake'',
        cpp_info = \<lparr>includedirs = [], libdirs = [], libs = [], cpp_defines = [], system_libs = []\<rparr>,
        dependencies = [], shared = False\<rparr>],
      host = [\<lparr>ref_name = ''zlib'', package_folder = Some ''/p/zlib'',
        cpp_info = \<lparr>includedirs = [''/p/zlib/include''], libdirs = [''/p/zlib/lib''], libs = [''z''],
                    cpp_defines = [], system_libs = []\<rparr>,
        dependencies = [], shared = False\<rparr>]\<rparr>
     \<lparr>saved = [], warned = []\<rparr> =
   (Inr (), snd (generate (posix_env ''Linux'' [(''/p/zlib/lib'', [''libz.a''])])
     \<lparr>generators_folder = ''/g'',
      direct_build = [\<lparr>ref_name = ''cmake'', package_folder = Some ''/p/cmake'',
        cpp_info = \<lparr>includedirs = [], libdirs = [], libs = [], cpp_defines = [], system_libs = []\<rparr>,
        dependencies = [], shared = False\<rparr>],
      host = [\<lparr>ref_name = ''zlib'', package_folder = Some ''/p/zlib'',
        cpp_info = \<lparr>includedirs = [''/p/zlib/include''], libdirs = [''/p/zlib/lib''], libs = [''z''],
                    cpp_defines = [], system_libs = []\<rparr>,
        dependencies = [], shared = False\<rparr>]\<rparr>
     \<lparr>saved = [], warned = []\<rparr>)) \<and>
   snd (last (saved (snd (generate (posix_env ''Linux'' [(''/p/zlib/lib'', [''libz.a''])])
     \<lparr>generators_folder = ''/g'',
      direct_build = [\<lparr>ref_name = ''cmake'', package_folder = Some ''/p/cmake'',
        cpp_info = \<lparr>includedirs = [], libdirs = [], libs = [], cpp_defines = [], system_libs = []\<rparr>,
        dependencies = [], shared = False\<rparr>],
      host = [\<lparr>ref_name = ''zlib'', package_folder = Some ''/p/zlib'',
        cpp_info = \<lparr>includedirs = [''/p/zlib/include''], libdirs = [''/p/zlib/lib''], libs = [''z''],
                    cpp_defines = [], system_libs = []\<rparr>,
        dependencies = [], shared = False\<rparr>]\<rparr>
     \<lparr>saved = [], warned = []\<rparr>)))) =
   get_main_buildfile_content
     [local_repository_of ''/g''
        \<lparr>ref_name = ''cmake'', package_folder = Some ''/p/cmake'',
         cpp_info = \<lparr>includedirs = [], libdirs = [], libs = [], cpp_defines = [], system_libs = []\<rparr>,
         dependencies = [], shared = False\<rparr>,
      local_repository_of ''/g''
        \<lparr>ref_name = ''zlib'', package_folder = Some ''/p/zlib'',
         cpp_info = \<lparr>includedirs = [''/p/zlib/include''], libdirs = [''/p/zlib/lib''], libs = [''z''],
                     cpp_defines = [], system_libs = []\<rparr>,
         dependencies = [], shared = False\<rparr>]"
proof -
  let ?e = "posix_env ''Linux'' [(''/p/zlib/lib'', [''libz.a''])]"
  let ?cmake = "\<lparr>ref_name = ''cmake'', package_folder = Some ''/p/cmake'',
        cpp_info = \<lparr>includedirs = [], libdirs = [], libs = [], cpp_defines = [], system_libs = []\<rparr>,
        dependencies = [], shared = False\<rparr>"
  let ?zlib = "\<lparr>ref_name = ''zlib'', package_folder = Some ''/p/zlib'',
        cpp_info = \<lparr>includedirs = [''/p/zlib/include''], libdirs = [''/p/zlib/lib''], libs = [''z''],
                    cpp_defines = [], system_libs = []\<rparr>,
        dependencies = [], shared = False\<rparr>"
  let ?cf = "\<lparr>generators_folder = ''/g'', direct_build = [?cmake], host = [?zlib]\<rparr>"
  let ?w = "\<lparr>saved = [], warned = []\<rparr>"
  have "fst (generate ?e ?cf ?w) = Inr ()"
    by code_simp
  then have h: "generate ?e ?cf ?w = (Inr (), snd (generate ?e ?cf ?w))"
    by (simp add: prod_eq_iff)
  have f: "has_buildfile ?e ?zlib"
    by code_simp
  from snippets_follow_visit_order[OF h]
  have "snd (last (saved (snd (generate ?e ?cf ?w)))) =
          get_main_buildfile_content [local_repository_of ''/g'' ?cmake, local_repository_of ''/g'' ?zlib]"
    by (simp add: f Let_def)
  with h show ?thesis by blast
qed

text \<open>
  Claim C8. A run of \<^verbatim>\<open>generate\<close> that completes ends with exactly two aggregate files in
  the generators folder, after the per-dependency files and at paths none of them has: an
  empty \<^verbatim>\<open>BUILD\<close>, and \<^verbatim>\<open>dependencies.bzl\<close> with the function \<^verbatim>\<open>load_conan_dependencies\<close>.
  Its body is made of one \<^verbatim>\<open>native.new_local_repository\<close> snippet for each dependency that got
  a file, with the dependency's name, package folder and BUILD file path (backslashes as
  slashes), the snippets joined by newlines and every line but the first preceded by four
  more spaces; with no snippet the body is \<^verbatim>\<open>pass\<close>.
\<close>

theorem aggregate_files:
  assumes "generate env cf w = (Inr (), w')"
  shows \<open>(\<exists>files. saved w' = saved w @ files @
            [(generators_folder cf @ ''/BUILD'', []),
             (generators_folder cf @ ''/dependencies.bzl'',
              get_main_buildfile_content
                (map (local_repository_of (generators_folder cf))
                   (direct_build cf @ filter (has_buildfile env) (host cf))))] \<and>
            map fst files = map (dependency_buildfile_name (generators_folder cf))
                              (direct_build cf @ filter (has_buildfile env) (host cf)) \<and>
            (\<forall>p\<in>set (map fst files).
               p \<noteq> generators_folder cf @ ''/BUILD'' \<and>
               p \<noteq> generators_folder cf @ ''/dependencies.bzl'')) \<and>
         (\<forall>d\<in>set (direct_build cf @ filter (has_buildfile env) (host cf)).
            \<exists>folder. package_folder d = Some folder \<and>
              local_repository_of (generators_folder cf) d =
                ''\<newline>native.new_local_repository(\<newline>    name="'' @ ref_name d @ ''",\<newline>'' @
                ''    path="'' @ replace backslash ''/'' folder @ ''",\<newline>'' @
                ''    build_file="'' @
                replace backslash ''/'' (generators_folder cf @ ''/'' @ ref_name d @ ''/BUILD'') @
                ''",\<newline>)\<newline>'') \<and>
         get_main_buildfile_content [] = ''\<newline>def load_conan_dependencies():\<newline>        pass\<newline>'' \<and>
         (snippets \<noteq> [] \<longrightarrow>
            get_main_buildfile_content snippets =
              ''\<newline>def load_conan_dependencies():\<newline>    '' @
              join ''    '' (splitlines_keepends [] (join ''\<newline>'' snippets)) @ ''\<newline>'')\<close>
proof -
  let ?gf = "generators_folder cf"
  let ?deps = "direct_build cf @ filter (has_buildfile env) (host cf)"
  let ?files = "map (\<lambda>d. (dependency_buildfile_name ?gf d, get_build_dependency_buildfile_content d))
                  (direct_build cf) @
                map (\<lambda>d. (dependency_buildfile_name ?gf d, host_buildfile env d))
                  (filter (has_buildfile env) (host cf))"
  have 1: "saved w' = saved w @ ?files @
            [(?gf @ ''/BUILD'', []),
             (?gf @ ''/dependencies.bzl'',
              get_main_buildfile_content (map (local_repository_of ?gf) ?deps))]"
    using generate_Inr[OF assms] by simp
  have 2: "map fst ?files = map (dependency_buildfile_name ?gf) ?deps"
    by (simp add: comp_def)
  have 3: "\<forall>p\<in>set (map fst ?files). p \<noteq> ?gf @ ''/BUILD'' \<and> p \<noteq> ?gf @ ''/dependencies.bzl''"
    unfolding 2 using buildfile_name_not_aggregate[of ?gf] by auto
  have 4: \<open>\<exists>folder. package_folder d = Some folder \<and>
              local_repository_of ?gf d =
                ''\<newline>native.new_local_repository(\<newline>    name="'' @ ref_name d @ ''",\<newline>'' @
                ''    path="'' @ replace backslash ''/'' folder @ ''",\<newline>'' @
                ''    build_file="'' @
                replace backslash ''/'' (?gf @ ''/'' @ ref_name d @ ''/BUILD'') @
                ''",\<newline>)\<newline>''\<close> if "d \<in> set ?deps" for d
  proof -
    from generate_folders[OF assms] that have "package_folder d \<noteq> None"
      by auto
    then obtain folder where f: "package_folder d = Some folder"
      by auto
    from local_repository_of_Some[OF f, of ?gf] f show ?thesis
      by blast
  qed
  have 5: "get_main_buildfile_content [] = ''\<newline>def load_conan_dependencies():\<newline>        pass\<newline>''"
    by (simp add: get_main_buildfile_content_def)
  have 6: "snippets \<noteq> [] \<longrightarrow>
            get_main_buildfile_content snippets =
              ''\<newline>def load_conan_dependencies():\<newline>    '' @
              join ''    '' (splitlines_keepends [] (join ''\<newline>'' snippets)) @ ''\<newline>''"
    by (simp add: get_main_buildfile_content_def)
  from 1 2 3 have ex: "\<exists>files. saved w' = saved w @ files @
            [(?gf @ ''/BUILD'', []),
             (?gf @ ''/dependencies.bzl'',
              get_main_buildfile_content (map (local_repository_of ?gf) ?deps))] \<and>
            map fst files = map (dependency_buildfile_name ?gf) ?deps \<and>
            (\<forall>p\<in>set (map fst files). p \<noteq> ?gf @ ''/BUILD'' \<and> p \<noteq> ?gf @ ''/dependencies.bzl'')"
    by (intro exI[of _ ?files] conjI)
  from ex 4 5 6 show ?thesis
    by (intro conjI ballI) blast+
qed

theorem aggregate_files_witness:
  \<open>generate (posix_env ''Linux'' [])
     \<lparr>generators_folder = ''/g'',
      direct_build = [\<lparr>ref_name = ''cmake'', package_folder = Some ''/p/cmake'',
        cpp_info = \<lparr>includedirs = [], libdirs = [], libs = [], cpp_defines = [], system_libs = []\<rparr>,
        dependencies = [], shared = False\<rparr>],
      host = []\<rparr>
     \<lparr>saved = [], warned = []\<rparr> =
   (Inr (), snd (generate (posix_env ''Linux'' [])
     \<lparr>generators_folder = ''/g'',
      direct_build = [\<lparr>ref_name = ''cmake'', package_folder = Some ''/p/cmake'',
        cpp_info = \<lparr>includedirs = [], libdirs = [], libs = [], cpp_defines = [], system_libs = []\<rparr>,
        dependencies = [], shared = False\<rparr>],
      host = []\<rparr>
     \<lparr>saved = [], warned = []\<rparr>)) \<and>
   local_repository_of ''/g''
     \<lparr>ref_name = ''cmake'', package_folder = Some ''/p/cmake'',
      cpp_info = \<lparr>includedirs = [], libdirs = [], libs = [], cpp_defines = [], system_libs = []\<rparr>,
      dependencies = [], shared = False\<rparr> =
     ''\<newline>native.new_local_repository(\<newline>    name="cmake",\<newline>    path="/p/cmake",\<newline>    build_file="/g/cmake/BUILD",\<newline>)\<newline>'' \<and>
   get_main_buildfile_content [] = ''\<newline>def load_conan_dependencies():\<newline>        pass\<newline>''\<close>
proof -
  let ?e = "posix_env ''Linux'' []"
  let ?cmake = "\<lparr>ref_name = ''cmake'', package_folder = Some ''/p/cmake'',
        cpp_info = \<lparr>includedirs = [], libdirs = [], libs = [], cpp_defines = [], system_libs = []\<rparr>,
        dependencies = [], shared = False\<rparr>"
  let ?cf = "\<lparr>generators_folder = ''/g'', direct_build = [?cmake], host = []\<rparr>"
  let ?w = "\<lparr>saved = [], warned = []\<rparr>"
  have "fst (generate ?e ?cf ?w) = Inr ()"
    by code_simp
  then have h: "generate ?e ?cf ?w = (Inr (), snd (generate ?e ?cf ?w))"
    by (simp add: prod_eq_iff)
  note t = aggregate_files[OF h, of "[]"]
  from t have p: "get_main_buildfile_content [] = ''\<newline>def load_conan_dependencies():\<newline>        pass\<newline>''"
    by blast
  from t have \<open>\<forall>d\<in>set (direct_build ?cf @ filter (has_buildfile ?e) (host ?cf)).
            \<exists>folder. package_folder d = Some folder \<and>
              local_repository_of (generators_folder ?cf) d =
                ''\<newline>native.new_local_repository(\<newline>    name="'' @ ref_name d @ ''",\<newline>'' @
                ''    path="'' @ replace backslash ''/'' folder @ ''",\<newline>'' @
                ''    build_file="'' @
                replace backslash ''/'' (generators_folder ?cf @ ''/'' @ ref_name d @ ''/BUILD'') @
                ''",\<newline>)\<newline>''\<close>
    by blast
  then have \<open>local_repository_of ''/g'' ?cmake =
     ''\<newline>native.new_local_repository(\<newline>    name="cmake",\<newline>    path="/p/cmake",\<newline>    build_file="/g/cmake/BUILD",\<newline>)\<newline>''\<close>
    by (simp add: replace_def backslash_def)
  with h p show ?thesis by blast
qed

end
